theory Spec2Isabelle
  imports Complex_Main "HOL-Library.Multiset" "HOL-Library.AList" "HOL-Library.Log_Nat"
begin

section \<open>Data model (types.tsx)\<close>

text \<open>
  The interfaces of \<^verbatim>\<open>types.tsx\<close> as records. Field names carry a prefix for the
  interface they belong to, since several interfaces share names (\<^verbatim>\<open>id\<close>,
  \<^verbatim>\<open>userId\<close>, \<^verbatim>\<open>totalScore\<close>, ...). JavaScript numbers that hold counts and
  scores are integers here; an array index is a natural number. A timestamp that the code
  keeps as an ISO string and reads back with \<^verbatim>\<open>new Date(s).getTime()\<close> is the epoch
  millisecond count.
\<close>

record Question =
  q_id :: string
  q_question :: string
  q_options :: "string list"
  q_correctAnswer :: string
  q_team :: string
  q_createdBy :: string
  q_createdAt :: string

record Answer =
  a_questionId :: string
  a_answer :: string
  a_correct :: bool
  a_points :: int

datatype session_status = Active | Completed

record QuizSession =
  s_sessionId :: string
  s_userId :: string
  s_quizId :: string
  s_team :: string
  s_questions :: "Question list"
  s_currentQuestion :: nat
  s_score :: int
  s_answers :: "Answer list"
  s_startedAt :: int
  s_status :: session_status
  s_completedAt :: "int option"

record UserProfile =
  p_id :: string
  p_email :: string
  p_name :: string
  p_role :: string
  p_totalScore :: int
  p_gamesPlayed :: int

record RankingEntry =
  r_position :: nat
  r_userId :: string
  r_name :: string
  r_totalScore :: int
  r_gamesPlayed :: int
  r_average :: string

record Quiz =
  z_id :: string
  z_name :: string
  z_description :: "string option"
  z_team :: string
  z_questionIds :: "string list"
  z_createdBy :: string
  z_createdAt :: string
  z_timeLimit :: "int option"

record FastestEntry =
  f_userId :: string
  f_name :: string
  f_quizId :: string
  f_durationMs :: int
  f_score :: int
  f_completedAt :: int

text \<open>The audit record that \<^verbatim>\<open>finishQuiz\<close> writes under \<^verbatim>\<open>ranking:<ms>:<user>\<close>.\<close>

record RankingRecord =
  h_userId :: string
  h_sessionId :: string
  h_score :: int
  h_completedAt :: "int option"

section \<open>The key-value store\<close>

text \<open>
  Modelled from the spec: \<^verbatim>\<open>kv_store.tsx\<close> is imported by every module but is not
  among the sources. The spec gives it as a string-keyed store with get, set, delete,
  multi-get and prefix scan, no atomicity across keys. The store is an association list
  (the scan order of the prefix scan is the list order); the multi-get answers each
  requested key in turn, with \<open>None\<close> for a missing one. A stored value is the datum whose
  encoding (\<^verbatim>\<open>JSON.stringify\<close>, \<^verbatim>\<open>toString\<close>) the code writes, and reading a
  value of another shape than the reader decodes (\<^verbatim>\<open>JSON.parse\<close>,
  \<^verbatim>\<open>parseInt\<close>) is the error \<open>UnexpectedShape\<close>.
\<close>

datatype kv_value =
    VString string
  | VNumber int
  | VSession QuizSession
  | VProfile UserProfile
  | VFastest FastestEntry
  | VRanking "RankingEntry list"
  | VQuiz Quiz
  | VQuestion Question
  | VRecord RankingRecord

type_synonym store = "(string \<times> kv_value) list"

definition kv_get :: "store \<Rightarrow> string \<Rightarrow> kv_value option" where
  "kv_get st k = map_of st k"

definition kv_set :: "store \<Rightarrow> string \<Rightarrow> kv_value \<Rightarrow> store" where
  "kv_set st k v = AList.update k v st"

definition kv_del :: "store \<Rightarrow> string \<Rightarrow> store" where
  "kv_del st k = AList.delete k st"

definition kv_mget :: "store \<Rightarrow> string list \<Rightarrow> kv_value option list" where
  "kv_mget st ks = map (map_of st) ks"

definition startsWith :: "string \<Rightarrow> string \<Rightarrow> bool" where
  "startsWith k p = (take (length p) k = p)"

definition kv_getByPrefix :: "store \<Rightarrow> string \<Rightarrow> kv_value list" where
  "kv_getByPrefix st p = map snd (filter (\<lambda>kv. startsWith (fst kv) p) st)"

definition kv_getKeysByPrefix :: "store \<Rightarrow> string \<Rightarrow> string list" where
  "kv_getKeysByPrefix st p = filter (\<lambda>k. startsWith k p) (map fst st)"

definition kv_mdel :: "store \<Rightarrow> string list \<Rightarrow> store" where
  "kv_mdel st ks = filter (\<lambda>kv. fst kv \<notin> set ks) st"

text \<open>
  \<^verbatim>\<open>!x\<close> on what \<^verbatim>\<open>kv.get\<close> returned: true for a missing key and for the empty
  string.
\<close>

fun falsy :: "kv_value option \<Rightarrow> bool" where
  "falsy None = True"
| "falsy (Some (VString s)) = (s = [])"
| "falsy (Some _) = False"

datatype error =
    QuizRequired
  | QuizNotFound
  | NoQuestionsForQuiz
  | NoQuestionsForTeam
  | NoActiveSession
  | SessionNotFound
  | SessionNotActive
  | NoMoreQuestions
  | TypeError
  | UnexpectedShape

fun as_string :: "kv_value \<Rightarrow> error + string" where
  "as_string (VString s) = Inr s"
| "as_string _ = Inl UnexpectedShape"

fun as_session :: "kv_value \<Rightarrow> error + QuizSession" where
  "as_session (VSession s) = Inr s"
| "as_session _ = Inl UnexpectedShape"

fun as_profile :: "kv_value \<Rightarrow> error + UserProfile" where
  "as_profile (VProfile p) = Inr p"
| "as_profile _ = Inl UnexpectedShape"

fun as_fastest :: "kv_value \<Rightarrow> error + FastestEntry" where
  "as_fastest (VFastest f) = Inr f"
| "as_fastest _ = Inl UnexpectedShape"

fun as_ranking :: "kv_value \<Rightarrow> error + RankingEntry list" where
  "as_ranking (VRanking r) = Inr r"
| "as_ranking _ = Inl UnexpectedShape"

fun as_number :: "kv_value \<Rightarrow> error + int" where
  "as_number (VNumber n) = Inr n"
| "as_number _ = Inl UnexpectedShape"

fun as_quiz :: "kv_value \<Rightarrow> error + Quiz" where
  "as_quiz (VQuiz z) = Inr z"
| "as_quiz _ = Inl UnexpectedShape"

fun as_question :: "kv_value \<Rightarrow> error + Question" where
  "as_question (VQuestion q) = Inr q"
| "as_question _ = Inl UnexpectedShape"

text \<open>Decoding every element of a list stops at the first one that fails.\<close>

fun parse_all :: "('a \<Rightarrow> error + 'b) \<Rightarrow> 'a list \<Rightarrow> error + 'b list" where
  "parse_all f [] = Inr []"
| "parse_all f (x # xs) =
     (case f x of
        Inl e \<Rightarrow> Inl e
      | Inr y \<Rightarrow> (case parse_all f xs of Inl e \<Rightarrow> Inl e | Inr ys \<Rightarrow> Inr (y # ys)))"

subsection \<open>Key layout\<close>

fun digit_char :: "nat \<Rightarrow> char" where
  "digit_char n = char_of (48 + n)"

fun decimal :: "nat \<Rightarrow> string" where
  "decimal n = (if n < 10 then [digit_char n] else decimal (n div 10) @ [digit_char (n mod 10)])"

definition active_session_key :: "string \<Rightarrow> string" where
  "active_session_key userId = ''user:'' @ userId @ '':active_session''"

definition user_profile_key :: "string \<Rightarrow> string" where
  "user_profile_key userId = ''user_profile:'' @ userId"

definition fastest_key :: "string \<Rightarrow> string" where
  "fastest_key quizId = ''fastest:'' @ quizId"

definition session_key :: "string \<Rightarrow> string \<Rightarrow> nat \<Rightarrow> string" where
  "session_key userId quizId now = ''session:'' @ userId @ '':'' @ quizId @ '':'' @ decimal now"

definition ranking_key :: "nat \<Rightarrow> string \<Rightarrow> string" where
  "ranking_key now userId = ''ranking:'' @ decimal now @ '':'' @ userId"

definition CACHE_KEY :: string where
  "CACHE_KEY = ''ranking:cache''"

definition CACHE_TTL_MS :: int where
  "CACHE_TTL_MS = 30000"

definition CACHE_TIMESTAMP_KEY :: string where
  "CACHE_TIMESTAMP_KEY = ''ranking:cache:timestamp''"

section \<open>Session engine (quiz-session-module.tsx)\<close>

subsection \<open>shuffleArray\<close>

text \<open>
  \<^verbatim>\<open>shuffleArray\<close> copies its argument and swaps inside the copy. Arrays are therefore
  kept in a heap, a list of arrays addressed by position, so that the copy and the
  argument are different objects. \<open>rnd i\<close> is the value of
  \<^verbatim>\<open>Math.floor(Math.random() * (i + 1))\<close> drawn in the iteration with index \<open>i\<close>.
\<close>

type_synonym 'a heap = "'a list list"

definition swap :: "'a heap \<Rightarrow> nat \<Rightarrow> nat \<Rightarrow> nat \<Rightarrow> 'a heap" where
  "swap h a i j = h[a := (h ! a)[i := h ! a ! j, j := h ! a ! i]]"

fun shuffle_loop :: "nat \<Rightarrow> (nat \<Rightarrow> nat) \<Rightarrow> nat \<Rightarrow> 'a heap \<Rightarrow> 'a heap" where
  "shuffle_loop 0 rnd a h = h"
| "shuffle_loop (Suc i) rnd a h = shuffle_loop i rnd a (swap h a (Suc i) (rnd (Suc i)))"

definition shuffleArray :: "'a heap \<Rightarrow> nat \<Rightarrow> (nat \<Rightarrow> nat) \<Rightarrow> nat \<times> 'a heap" where
  "shuffleArray h array rnd =
     (let shuffled = length h;
          h1 = h @ [h ! array]
      in (shuffled, shuffle_loop (length (h1 ! shuffled) - 1) rnd shuffled h1))"

text \<open>The shuffled copy of an array that nothing else refers to, as \<^verbatim>\<open>startSession\<close> uses it.\<close>

definition shuffled_copy :: "(nat \<Rightarrow> nat) \<Rightarrow> 'a list \<Rightarrow> 'a list" where
  "shuffled_copy rnd xs = (case shuffleArray [xs] 0 rnd of (shuffled, h) \<Rightarrow> h ! shuffled)"

subsection \<open>startSession\<close>

record StartResult =
  sr_sessionId :: string
  sr_totalQuestions :: nat
  sr_quizId :: string
  sr_timeLimit :: int

text \<open>
  \<open>team\<close> is the optional parameter; \<open>now\<close> is \<^verbatim>\<open>Date.now()\<close> in the session id and
  \<open>started\<close> the clock read for \<^verbatim>\<open>startedAt\<close>.
\<close>

definition team_given :: "string option \<Rightarrow> bool" where
  "team_given team = (case team of None \<Rightarrow> False | Some t \<Rightarrow> t \<noteq> [])"

definition startSession ::
  "store \<Rightarrow> string \<Rightarrow> string \<Rightarrow> string option \<Rightarrow> nat \<Rightarrow> int \<Rightarrow> (nat \<Rightarrow> nat)
     \<Rightarrow> (error + StartResult) \<times> store" where
  "startSession st userId quizId team now started rnd =
     (if quizId = [] then (Inl QuizRequired, st)
      else let quizStr = kv_get st quizId in
        if falsy quizStr then (Inl QuizNotFound, st)
        else (case as_quiz (the quizStr) of
          Inl e \<Rightarrow> (Inl e, st)
        | Inr quiz \<Rightarrow>
            if z_questionIds quiz = [] then (Inl NoQuestionsForQuiz, st)
            else (case parse_all as_question
                        (map the (filter (\<lambda>q. q \<noteq> None) (kv_mget st (z_questionIds quiz)))) of
              Inl e \<Rightarrow> (Inl e, st)
            | Inr qs \<Rightarrow>
                let parsedQuestions =
                      filter (\<lambda>q. \<not> team_given team \<or> Some (q_team q) = team
                                   \<or> q_team q = ''general'') qs
                in if parsedQuestions = [] then (Inl NoQuestionsForTeam, st)
                   else
                     let shuffledQuestions = shuffled_copy rnd parsedQuestions;
                         sessionId = session_key userId quizId now;
                         sessionData = \<lparr> s_sessionId = sessionId, s_userId = userId,
                           s_quizId = quizId,
                           s_team = (if team_given team then the team
                                     else if z_team quiz \<noteq> [] then z_team quiz
                                     else ''general''),
                           s_questions = shuffledQuestions, s_currentQuestion = 0,
                           s_score = 0, s_answers = [], s_startedAt = started,
                           s_status = Active, s_completedAt = None \<rparr>;
                         st1 = kv_set st sessionId (VSession sessionData);
                         st2 = kv_set st1 (active_session_key userId) (VString sessionId)
                     in (Inr \<lparr> sr_sessionId = sessionId,
                               sr_totalQuestions = length shuffledQuestions,
                               sr_quizId = quizId,
                               sr_timeLimit = (case z_timeLimit quiz of
                                                 None \<Rightarrow> 30
                                               | Some t \<Rightarrow> if t = 0 then 30 else t) \<rparr>,
                         st2))))"

subsection \<open>getCurrentQuestion\<close>

text \<open>The object literal returned under \<^verbatim>\<open>question\<close>: it has these three fields.\<close>

record QuestionView =
  v_id :: string
  v_question :: string
  v_options :: "string list"

record CurrentQuestionResult =
  cq_question :: QuestionView
  cq_currentQuestion :: nat
  cq_totalQuestions :: nat
  cq_score :: int

definition getCurrentQuestion :: "store \<Rightarrow> string \<Rightarrow> error + CurrentQuestionResult" where
  "getCurrentQuestion st userId =
     (let sessionId = kv_get st (active_session_key userId) in
      if falsy sessionId then Inl NoActiveSession
      else (case as_string (the sessionId) of
        Inl e \<Rightarrow> Inl e
      | Inr sid \<Rightarrow>
          let sessionDataStr = kv_get st sid in
          if falsy sessionDataStr then Inl SessionNotFound
          else (case as_session (the sessionDataStr) of
            Inl e \<Rightarrow> Inl e
          | Inr sessionData \<Rightarrow>
              if s_status sessionData \<noteq> Active then Inl SessionNotActive
              else if \<not> s_currentQuestion sessionData < length (s_questions sessionData)
              then Inl NoMoreQuestions
              else
                let currentQuestion = s_questions sessionData ! s_currentQuestion sessionData
                in Inr \<lparr> cq_question = \<lparr> v_id = q_id currentQuestion,
                                           v_question = q_question currentQuestion,
                                           v_options = q_options currentQuestion \<rparr>,
                          cq_currentQuestion = s_currentQuestion sessionData + 1,
                          cq_totalQuestions = length (s_questions sessionData),
                          cq_score = s_score sessionData \<rparr>)))"

subsection \<open>submitAnswer\<close>

record SubmitResult =
  sb_correct :: bool
  sb_correctAnswer :: string
  sb_points :: int
  sb_totalScore :: int
  sb_hasMoreQuestions :: bool

text \<open>
  There is no check of the status and none of the index: past the end of the list
  \<^verbatim>\<open>currentQuestion\<close> is \<^verbatim>\<open>undefined\<close> and reading
  \<^verbatim>\<open>currentQuestion.correctAnswer\<close> throws a \<^verbatim>\<open>TypeError\<close>, before any write.
\<close>

definition submitAnswer ::
  "store \<Rightarrow> string \<Rightarrow> string \<Rightarrow> (error + SubmitResult) \<times> store" where
  "submitAnswer st userId answer =
     (let sessionId = kv_get st (active_session_key userId) in
      if falsy sessionId then (Inl NoActiveSession, st)
      else (case as_string (the sessionId) of
        Inl e \<Rightarrow> (Inl e, st)
      | Inr sid \<Rightarrow>
          let sessionDataStr = kv_get st sid in
          if falsy sessionDataStr then (Inl SessionNotFound, st)
          else (case as_session (the sessionDataStr) of
            Inl e \<Rightarrow> (Inl e, st)
          | Inr sessionData \<Rightarrow>
              if \<not> s_currentQuestion sessionData < length (s_questions sessionData)
              then (Inl TypeError, st)
              else
                let currentQuestion = s_questions sessionData ! s_currentQuestion sessionData;
                    isCorrect = (answer = q_correctAnswer currentQuestion);
                    pointsEarned = (if isCorrect then 100 else 0);
                    sessionData1 = sessionData
                      \<lparr> s_score := s_score sessionData + pointsEarned,
                        s_answers := s_answers sessionData @
                          [\<lparr> a_questionId = q_id currentQuestion, a_answer = answer,
                             a_correct = isCorrect, a_points = pointsEarned \<rparr>],
                        s_currentQuestion := s_currentQuestion sessionData + 1 \<rparr>;
                    hasMoreQuestions =
                      (s_currentQuestion sessionData1 < length (s_questions sessionData1))
                in (Inr \<lparr> sb_correct = isCorrect,
                          sb_correctAnswer = q_correctAnswer currentQuestion,
                          sb_points = pointsEarned,
                          sb_totalScore = s_score sessionData1,
                          sb_hasMoreQuestions = hasMoreQuestions \<rparr>,
                    kv_set st sid (VSession sessionData1)))))"

subsection \<open>getSession, hasActiveSession\<close>

definition getSession :: "store \<Rightarrow> string \<Rightarrow> error + QuizSession" where
  "getSession st sessionId =
     (let sessionDataStr = kv_get st sessionId in
      if falsy sessionDataStr then Inl SessionNotFound else as_session (the sessionDataStr))"

definition hasActiveSession :: "store \<Rightarrow> string \<Rightarrow> bool" where
  "hasActiveSession st userId = (\<not> falsy (kv_get st (active_session_key userId)))"

section \<open>Scoring engine (scoring-module.tsx)\<close>

subsection \<open>updateUserScore\<close>

definition updateUserScore :: "store \<Rightarrow> string \<Rightarrow> int \<Rightarrow> (error + unit) \<times> store" where
  "updateUserScore st userId scoreToAdd =
     (let userProfileStr = kv_get st (user_profile_key userId) in
      if falsy userProfileStr then (Inr (), st)
      else (case as_profile (the userProfileStr) of
        Inl e \<Rightarrow> (Inl e, st)
      | Inr userProfile \<Rightarrow>
          (Inr (), kv_set st (user_profile_key userId)
             (VProfile (userProfile
                \<lparr> p_totalScore := p_totalScore userProfile + scoreToAdd,
                  p_gamesPlayed := p_gamesPlayed userProfile + 1 \<rparr>)))))"

subsection \<open>trackFastestPlayer\<close>

definition durationMs_of :: "QuizSession \<Rightarrow> int" where
  "durationMs_of sessionData =
     (case s_completedAt sessionData of
        Some completedAt \<Rightarrow> completedAt - s_startedAt sessionData
      | None \<Rightarrow> 0)"

text \<open>\<open>now\<close> is the clock read of line 137, used only when the session has no \<^verbatim>\<open>completedAt\<close>.\<close>

definition trackFastestPlayer ::
  "store \<Rightarrow> QuizSession \<Rightarrow> int \<Rightarrow> (error + unit) \<times> store" where
  "trackFastestPlayer st sessionData now =
     (let durationMs = durationMs_of sessionData;
          profileStr = kv_get st (user_profile_key (s_userId sessionData))
      in if falsy profileStr then (Inr (), st)
      else (case as_profile (the profileStr) of
        Inl e \<Rightarrow> (Inl e, st)
      | Inr profile \<Rightarrow>
          let entry = \<lparr> f_userId = s_userId sessionData, f_name = p_name profile,
                        f_quizId = s_quizId sessionData, f_durationMs = durationMs,
                        f_score = s_score sessionData,
                        f_completedAt = (case s_completedAt sessionData of
                                           Some completedAt \<Rightarrow> completedAt
                                         | None \<Rightarrow> now) \<rparr>;
              key = fastest_key (s_quizId sessionData);
              currentStr = kv_get st key
          in if falsy currentStr then (Inr (), kv_set st key (VFastest entry))
          else (case as_fastest (the currentStr) of
            Inl e \<Rightarrow> (Inl e, st)
          | Inr current \<Rightarrow>
              let isFaster = (durationMs > 0 \<and>
                     (f_durationMs current = 0 \<or> durationMs < f_durationMs current));
                  isHigherScore = (s_score sessionData > f_score current)
              in if isFaster \<or> isHigherScore
                 then (Inr (), kv_set st key (VFastest entry))
                 else (Inr (), st))))"

subsection \<open>finishQuiz\<close>

record FinishResult =
  fr_finalScore :: int
  fr_totalQuestions :: nat
  fr_correctAnswers :: nat
  fr_durationMs :: int

text \<open>
  \<open>finished\<close> is the clock read for \<^verbatim>\<open>completedAt\<close>, \<open>now\<close> the \<^verbatim>\<open>Date.now()\<close> of the
  ranking key. An exception of a callee leaves the writes made so far in the store. The
  clock read inside \<^verbatim>\<open>trackFastestPlayer\<close> is not reached from here, the session
  having its \<^verbatim>\<open>completedAt\<close>.
\<close>

definition finishQuiz ::
  "store \<Rightarrow> string \<Rightarrow> int \<Rightarrow> nat \<Rightarrow> (error + FinishResult) \<times> store" where
  "finishQuiz st userId finished now =
     (let sessionId = kv_get st (active_session_key userId) in
      if falsy sessionId then (Inl NoActiveSession, st)
      else (case as_string (the sessionId) of
        Inl e \<Rightarrow> (Inl e, st)
      | Inr sid \<Rightarrow>
          let sessionDataStr = kv_get st sid in
          if falsy sessionDataStr then (Inl SessionNotFound, st)
          else (case as_session (the sessionDataStr) of
            Inl e \<Rightarrow> (Inl e, st)
          | Inr sessionData0 \<Rightarrow>
              let sessionData = sessionData0
                    \<lparr> s_status := Completed, s_completedAt := Some finished \<rparr>;
                  st1 = kv_set st sid (VSession sessionData);
                  st2 = kv_del st1 (active_session_key userId)
              in (case updateUserScore st2 userId (s_score sessionData) of
                (Inl e, st3) \<Rightarrow> (Inl e, st3)
              | (Inr _, st3) \<Rightarrow>
                  (case trackFastestPlayer st3 sessionData finished of
                     (Inl e, st4) \<Rightarrow> (Inl e, st4)
                   | (Inr _, st4) \<Rightarrow>
                       let st5 = kv_set st4 (ranking_key now userId)
                             (VRecord \<lparr> h_userId = userId, h_sessionId = sid,
                                        h_score = s_score sessionData,
                                        h_completedAt = s_completedAt sessionData \<rparr>);
                           correctAnswers = length (filter a_correct (s_answers sessionData))
                       in (Inr \<lparr> fr_finalScore = s_score sessionData,
                                 fr_totalQuestions = length (s_questions sessionData),
                                 fr_correctAnswers = correctAnswers,
                                 fr_durationMs = durationMs_of sessionData \<rparr>,
                           st5))))))"

subsection \<open>getUserStats, getSessionScore\<close>

text \<open>
  Quotients are exact rationals here; the code computes them in binary floating point.
  \<^verbatim>\<open>Math.round\<close> returns the nearest integer and, of two equally near, the larger.
\<close>

definition Math_round :: "rat \<Rightarrow> int" where
  "Math_round x = \<lfloor>x + 1 / 2\<rfloor>"



definition getSessionScore :: "store \<Rightarrow> string \<Rightarrow> error + int" where
  "getSessionScore st sessionId =
     (let sessionDataStr = kv_get st sessionId in
      if falsy sessionDataStr then Inl SessionNotFound
      else (case as_session (the sessionDataStr) of
        Inl e \<Rightarrow> Inl e
      | Inr sessionData \<Rightarrow> Inr (s_score sessionData)))"

subsection \<open>getFastestByQuiz, resetAllFastest\<close>

definition getFastestByQuiz :: "store \<Rightarrow> string \<Rightarrow> error + FastestEntry option" where
  "getFastestByQuiz st quizId =
     (let currentStr = kv_get st (fastest_key quizId) in
      if falsy currentStr then Inr None
      else (case as_fastest (the currentStr) of
        Inl e \<Rightarrow> Inl e
      | Inr current \<Rightarrow> Inr (Some current)))"

definition resetAllFastest :: "store \<Rightarrow> store" where
  "resetAllFastest st =
     (let keys = kv_getKeysByPrefix st ''fastest:''
      in if length keys > 0 then kv_mdel st keys else st)"

section \<open>Ranking cache (ranking-module.tsx)\<close>

subsection \<open>calculateRanking\<close>

text \<open>
  \<^verbatim>\<open>profile.totalScore / profile.gamesPlayed\<close> is a division of doubles. A double is
  kept by its exact value, a rational: \<open>to_double\<close> rounds to 53 significant bits, a tie
  going to the even significand. Both operands are doubles already (the numbers that
  \<^verbatim>\<open>JSON.parse\<close> read) and the quotient is rounded once more. Left out are
  overflow to \<^verbatim>\<open>Infinity\<close> and subnormal numbers, neither of which two integers up to
  \<open>2\<^sup>5\<^sup>3\<close> can produce.
\<close>

definition round_half_even :: "rat \<Rightarrow> int" where
  "round_half_even y =
     (let f = \<lfloor>y\<rfloor>; r = y - of_int f
      in if r < 1 / 2 then f else if r > 1 / 2 then f + 1 else if even f then f else f + 1)"

definition floor_log2 :: "rat \<Rightarrow> int" where
  "floor_log2 y =
     (case quotient_of y of (a, b) \<Rightarrow>
        let k = bitlen a - bitlen b in if 2 powi k \<le> y then k else k - 1)"

definition to_double :: "rat \<Rightarrow> rat" where
  "to_double x =
     (if x = 0 then 0
      else let e = floor_log2 \<bar>x\<bar> - 52;
               m = round_half_even (\<bar>x\<bar> / 2 powi e)
           in sgn x * of_int m * 2 powi e)"

definition js_divide :: "int \<Rightarrow> int \<Rightarrow> rat" where
  "js_divide a b = to_double (to_double (of_int a) / to_double (of_int b))"

text \<open>
  \<^verbatim>\<open>x.toFixed(1)\<close> of the double \<open>x\<close>: the integer \<open>n\<close> with \<open>n / 10\<close> nearest to the
  exact value of \<open>\<bar>x\<bar>\<close> (the larger of two equally near), printed with one digit after
  the point and a minus sign for a negative \<open>x\<close>. The exponent form that numbers from
  \<open>10\<^sup>2\<^sup>1\<close> on are printed in is left out.
\<close>

definition toFixed1 :: "rat \<Rightarrow> string" where
  "toFixed1 x =
     (let n = nat \<lfloor>\<bar>x\<bar> * 10 + 1 / 2\<rfloor>
      in (if x < 0 then [CHR ''-''] else []) @ decimal (n div 10) @ [CHR ''.''] @ decimal (n mod 10))"

text \<open>
  \<^verbatim>\<open>profiles.sort((a, b) => b.totalScore - a.totalScore)\<close>: the stable sort, larger
  total first.
\<close>

definition sort_by_totalScore_desc :: "UserProfile list \<Rightarrow> UserProfile list" where
  "sort_by_totalScore_desc profiles = sort_key (\<lambda>p. - p_totalScore p) profiles"

definition ranking_entry :: "nat \<Rightarrow> UserProfile \<Rightarrow> RankingEntry" where
  "ranking_entry index profile =
     \<lparr> r_position = index + 1,
       r_userId = p_id profile,
       r_name = p_name profile,
       r_totalScore = p_totalScore profile,
       r_gamesPlayed = p_gamesPlayed profile,
       r_average = (if p_gamesPlayed profile > 0
                    then toFixed1 (js_divide (p_totalScore profile) (p_gamesPlayed profile))
                    else ''0.0'') \<rparr>"

definition calculateRanking :: "store \<Rightarrow> error + RankingEntry list" where
  "calculateRanking st =
     (case parse_all as_profile (kv_getByPrefix st ''user_profile:'') of
        Inl e \<Rightarrow> Inl e
      | Inr allProfiles \<Rightarrow>
          let profiles = sort_by_totalScore_desc
                           (filter (\<lambda>profile. p_gamesPlayed profile > 0) allProfiles)
          in Inr (map (\<lambda>(index, profile). ranking_entry index profile) (enumerate 0 profiles)))"

subsection \<open>The cache\<close>

text \<open>\<open>now\<close> is the \<^verbatim>\<open>Date.now()\<close> of the age check.\<close>

definition getRankingFromCache :: "store \<Rightarrow> int \<Rightarrow> error + RankingEntry list option" where
  "getRankingFromCache st now =
     (let cachedRankingStr = kv_get st CACHE_KEY;
          timestampStr = kv_get st CACHE_TIMESTAMP_KEY
      in if falsy cachedRankingStr \<or> falsy timestampStr then Inr None
      else (case as_number (the timestampStr) of
        Inl e \<Rightarrow> Inl e
      | Inr timestamp \<Rightarrow>
          if now - timestamp > CACHE_TTL_MS then Inr None
          else (case as_ranking (the cachedRankingStr) of
            Inl e \<Rightarrow> Inl e
          | Inr ranking \<Rightarrow> Inr (Some ranking))))"

text \<open>\<open>written\<close> is the \<^verbatim>\<open>Date.now()\<close> stored as the timestamp.\<close>

definition cacheRanking :: "store \<Rightarrow> RankingEntry list \<Rightarrow> int \<Rightarrow> store" where
  "cacheRanking st ranking written =
     kv_set (kv_set st CACHE_KEY (VRanking ranking)) CACHE_TIMESTAMP_KEY (VNumber written)"

definition invalidateCache :: "store \<Rightarrow> store" where
  "invalidateCache st = kv_del (kv_del st CACHE_KEY) CACHE_TIMESTAMP_KEY"

definition getGlobalRanking ::
  "store \<Rightarrow> int \<Rightarrow> int \<Rightarrow> (error + RankingEntry list) \<times> store" where
  "getGlobalRanking st now written =
     (case getRankingFromCache st now of
        Inl e \<Rightarrow> (Inl e, st)
      | Inr (Some cachedRanking) \<Rightarrow> (Inr cachedRanking, st)
      | Inr None \<Rightarrow>
          (case calculateRanking st of
             Inl e \<Rightarrow> (Inl e, st)
           | Inr ranking \<Rightarrow> (Inr ranking, cacheRanking st ranking written)))"

subsection \<open>Queries on the ranking\<close>

definition getUserPosition ::
  "store \<Rightarrow> string \<Rightarrow> int \<Rightarrow> int \<Rightarrow> (error + nat option) \<times> store" where
  "getUserPosition st userId now written =
     (case getGlobalRanking st now written of
        (Inl e, st1) \<Rightarrow> (Inl e, st1)
      | (Inr ranking, st1) \<Rightarrow>
          (Inr (map_option r_position (find (\<lambda>r. r_userId r = userId) ranking)), st1))"

text \<open>
  \<^verbatim>\<open>xs.slice(0, end)\<close> for an integer \<open>end\<close>: a negative \<open>end\<close> counts from the end of
  the array.
\<close>

definition slice0 :: "'a list \<Rightarrow> int \<Rightarrow> 'a list" where
  "slice0 xs end =
     (let len = int (length xs);
          final = (if end < 0 then max (len + end) 0 else min end len)
      in take (nat final) xs)"

definition getTopPlayers ::
  "store \<Rightarrow> int \<Rightarrow> int \<Rightarrow> int \<Rightarrow> (error + RankingEntry list) \<times> store" where
  "getTopPlayers st limit now written =
     (case getGlobalRanking st now written of
        (Inl e, st1) \<Rightarrow> (Inl e, st1)
      | (Inr ranking, st1) \<Rightarrow> (Inr (slice0 ranking limit), st1))"

record RankingStats =
  rs_totalPlayers :: nat
  rs_averageScore :: rat
  rs_highestScore :: int

definition getRankingStats ::
  "store \<Rightarrow> int \<Rightarrow> int \<Rightarrow> (error + RankingStats) \<times> store" where
  "getRankingStats st now written =
     (case getGlobalRanking st now written of
        (Inl e, st1) \<Rightarrow> (Inl e, st1)
      | (Inr ranking, st1) \<Rightarrow>
          if length ranking = 0
          then (Inr \<lparr> rs_totalPlayers = 0, rs_averageScore = 0, rs_highestScore = 0 \<rparr>, st1)
          else
            let totalScore = foldl (\<lambda>sum entry. sum + r_totalScore entry) 0 ranking;
                averageScore = of_int totalScore / of_nat (length ranking)
            in (Inr \<lparr> rs_totalPlayers = length ranking,
                      rs_averageScore = of_int (Math_round (averageScore * 10)) / 10,
                      rs_highestScore = r_totalScore (hd ranking) \<rparr>, st1))"

subsection \<open>resetAllRankings\<close>

definition reset_profile :: "UserProfile \<Rightarrow> store \<Rightarrow> store" where
  "reset_profile profile st =
     kv_set st (user_profile_key (p_id profile))
       (VProfile (profile \<lparr> p_totalScore := 0, p_gamesPlayed := 0 \<rparr>))"

definition resetAllRankings :: "store \<Rightarrow> (error + unit) \<times> store" where
  "resetAllRankings st =
     (case parse_all as_profile (kv_getByPrefix st ''user_profile:'') of
        Inl e \<Rightarrow> (Inl e, st)
      | Inr profiles \<Rightarrow> (Inr (), invalidateCache (fold reset_profile profiles st)))"

section \<open>Definitions used in the statements\<close>

definition overwrite_answer :: "(Question \<Rightarrow> string) \<Rightarrow> Question \<Rightarrow> Question" where
  "overwrite_answer f q = q \<lparr> q_correctAnswer := f q \<rparr>"

fun overwrite_value :: "(Question \<Rightarrow> string) \<Rightarrow> kv_value \<Rightarrow> kv_value" where
  "overwrite_value f (VSession s) =
     VSession (s \<lparr> s_questions := map (overwrite_answer f) (s_questions s) \<rparr>)"
| "overwrite_value f (VQuestion q) = VQuestion (overwrite_answer f q)"
| "overwrite_value f v = v"

definition overwrite_answers :: "(Question \<Rightarrow> string) \<Rightarrow> store \<Rightarrow> store" where
  "overwrite_answers f st = map (\<lambda>kv. (fst kv, overwrite_value f (snd kv))) st"

definition ex_question1 :: Question where
  "ex_question1 = \<lparr> q_id = ''q1'', q_question = ''Who won in 1970?'',
     q_options = [''Brazil'', ''Italy'', ''Peru'', ''Spain''], q_correctAnswer = ''Brazil'',
     q_team = ''general'', q_createdBy = ''admin'', q_createdAt = ''2024'' \<rparr>"

definition ex_question2 :: Question where
  "ex_question2 = \<lparr> q_id = ''q2'', q_question = ''Who won in 1982?'',
     q_options = [''Brazil'', ''Italy'', ''Peru'', ''Spain''], q_correctAnswer = ''Italy'',
     q_team = ''general'', q_createdBy = ''admin'', q_createdAt = ''2024'' \<rparr>"

definition ex_session :: QuizSession where
  "ex_session = \<lparr> s_sessionId = ''session:u1:quiz1:5'', s_userId = ''u1'', s_quizId = ''quiz1'',
     s_team = ''general'', s_questions = [ex_question1, ex_question2], s_currentQuestion = 0,
     s_score = 0, s_answers = [], s_startedAt = 5, s_status = Active, s_completedAt = None \<rparr>"

definition ex_profile :: UserProfile where
  "ex_profile = \<lparr> p_id = ''u1'', p_email = ''u1@example.org'', p_name = ''Ana'',
     p_role = ''player'', p_totalScore = 100, p_gamesPlayed = 1 \<rparr>"

definition ex_store :: store where
  "ex_store = [(''user:u1:active_session'', VString ''session:u1:quiz1:5''),
               (''session:u1:quiz1:5'', VSession ex_session),
               (''user_profile:u1'', VProfile ex_profile)]"

definition ex_store_completed :: store where
  "ex_store_completed =
     [(''user:u1:active_session'', VString ''session:u1:quiz1:5''),
      (''session:u1:quiz1:5'',
         VSession (ex_session \<lparr> s_status := Completed, s_completedAt := Some 9 \<rparr>))]"

definition ex_store_exhausted :: store where
  "ex_store_exhausted =
     [(''user:u1:active_session'', VString ''session:u1:quiz1:5''),
      (''session:u1:quiz1:5'', VSession (ex_session \<lparr> s_currentQuestion := 2 \<rparr>))]"

definition candidate_entry :: "QuizSession \<Rightarrow> UserProfile \<Rightarrow> int \<Rightarrow> FastestEntry" where
  "candidate_entry sessionData profile now =
     \<lparr> f_userId = s_userId sessionData, f_name = p_name profile,
       f_quizId = s_quizId sessionData, f_durationMs = durationMs_of sessionData,
       f_score = s_score sessionData,
       f_completedAt = (case s_completedAt sessionData of Some c \<Rightarrow> c | None \<Rightarrow> now) \<rparr>"

definition ex_fastest :: FastestEntry where
  "ex_fastest = \<lparr> f_userId = ''u2'', f_name = ''Bia'', f_quizId = ''quiz1'',
     f_durationMs = 5000, f_score = 100, f_completedAt = 7000 \<rparr>"

definition ex_finished :: QuizSession where
  "ex_finished = ex_session \<lparr> s_score := 150, s_startedAt := 10000, s_status := Completed,
     s_completedAt := Some 18000 \<rparr>"

definition ex_store_other_profile :: store where
  "ex_store_other_profile =
     [(''user_profile:u2'', VProfile \<lparr> p_id = ''u2'', p_email = ''u2@example.org'',
         p_name = ''Bia'', p_role = ''player'', p_totalScore = 250, p_gamesPlayed = 3 \<rparr>)]"

definition ex_store_fastest :: store where
  "ex_store_fastest = [(''user_profile:u1'', VProfile ex_profile),
                       (''fastest:quiz1'', VFastest ex_fastest)]"

definition ex_profile2 :: UserProfile where
  "ex_profile2 = \<lparr> p_id = ''u2'', p_email = ''u2@example.org'', p_name = ''Bia'',
     p_role = ''player'', p_totalScore = 250, p_gamesPlayed = 3 \<rparr>"

definition ex_profile3 :: UserProfile where
  "ex_profile3 = \<lparr> p_id = ''u3'', p_email = ''u3@example.org'', p_name = ''Caio'',
     p_role = ''player'', p_totalScore = 0, p_gamesPlayed = 0 \<rparr>"

definition ex_ranking :: "RankingEntry list" where
  "ex_ranking =
     [\<lparr> r_position = 1, r_userId = ''u2'', r_name = ''Bia'', r_totalScore = 250,
        r_gamesPlayed = 3, r_average = ''83.3'' \<rparr>,
      \<lparr> r_position = 2, r_userId = ''u1'', r_name = ''Ana'', r_totalScore = 100,
        r_gamesPlayed = 1, r_average = ''100.0'' \<rparr>]"

definition ex_store_profiles :: store where
  "ex_store_profiles =
     [(''user_profile:u1'', VProfile ex_profile),
      (''ranking:cache'', VRanking []),
      (''user_profile:u2'', VProfile ex_profile2),
      (''ranking:cache:timestamp'', VNumber 1000),
      (''user_profile:u3'', VProfile ex_profile3)]"

definition ex_ranking3 :: "RankingEntry list" where
  "ex_ranking3 = ex_ranking @
     [\<lparr> r_position = 3, r_userId = ''u4'', r_name = ''Davi'', r_totalScore = 50,
        r_gamesPlayed = 2, r_average = ''25.0'' \<rparr>]"

definition ex_store_cached :: store where
  "ex_store_cached = [(''ranking:cache'', VRanking ex_ranking3),
                      (''ranking:cache:timestamp'', VNumber 1000)]"




text \<open>
  The operations of the core that write to the store, and the store each leaves behind
  (also when it fails).
\<close>

datatype operation =
    StartSession string string "string option" nat int "nat \<Rightarrow> nat"
  | SubmitAnswer string string
  | FinishQuiz string int nat
  | UpdateUserScore string int
  | TrackFastestPlayer QuizSession int
  | ResetAllFastest
  | GetGlobalRanking int int
  | InvalidateCache
  | GetUserPosition string int int
  | GetTopPlayers int int int
  | GetRankingStats int int
  | ResetAllRankings

fun run :: "operation \<Rightarrow> store \<Rightarrow> store" where
  "run (StartSession userId quizId team now started rnd) st =
     snd (startSession st userId quizId team now started rnd)"
| "run (SubmitAnswer userId answer) st = snd (submitAnswer st userId answer)"
| "run (FinishQuiz userId finished now) st = snd (finishQuiz st userId finished now)"
| "run (UpdateUserScore userId scoreToAdd) st = snd (updateUserScore st userId scoreToAdd)"
| "run (TrackFastestPlayer sessionData now) st = snd (trackFastestPlayer st sessionData now)"
| "run ResetAllFastest st = resetAllFastest st"
| "run (GetGlobalRanking now written) st = snd (getGlobalRanking st now written)"
| "run InvalidateCache st = invalidateCache st"
| "run (GetUserPosition userId now written) st = snd (getUserPosition st userId now written)"
| "run (GetTopPlayers limit now written) st = snd (getTopPlayers st limit now written)"
| "run (GetRankingStats now written) st = snd (getRankingStats st now written)"
| "run ResetAllRankings st = snd (resetAllRankings st)"

definition profile_of :: "store \<Rightarrow> string \<Rightarrow> UserProfile option" where
  "profile_of st userId =
     (case kv_get st (user_profile_key userId) of
        Some (VProfile p) \<Rightarrow> Some p
      | _ \<Rightarrow> None)"

fun is_profile_under :: "string \<Rightarrow> kv_value \<Rightarrow> bool" where
  "is_profile_under k (VProfile p) = (k = user_profile_key (p_id p))"
| "is_profile_under k _ = False"

definition profiles_well_keyed :: "store \<Rightarrow> bool" where
  "profiles_well_keyed st =
     (distinct (map fst st) \<and>
      (\<forall>kv \<in> set st. startsWith (fst kv) ''user_profile:'' \<longrightarrow>
         is_profile_under (fst kv) (snd kv)))"

definition scores_nonneg :: "store \<Rightarrow> bool" where
  "scores_nonneg st =
     (\<forall>kv \<in> set st. case snd kv of VSession s \<Rightarrow> 0 \<le> s_score s | _ \<Rightarrow> True)"

fun score_ok :: "kv_value \<Rightarrow> bool" where
  "score_ok (VSession s) = (0 \<le> s_score s)"
| "score_ok _ = True"

definition ex_store_answered :: store where
  "ex_store_answered =
     [(''user:u1:active_session'', VString ''session:u1:quiz1:5''),
      (''session:u1:quiz1:5'', VSession (ex_session \<lparr> s_score := 100,
         s_answers := [\<lparr> a_questionId = ''q1'', a_answer = ''Brazil'', a_correct = True,
                         a_points = 100 \<rparr>],
         s_currentQuestion := 1 \<rparr>)),
      (''user_profile:u1'', VProfile ex_profile)]"

text \<open>The number that a string of decimal digits reads.\<close>

definition is_digit :: "char \<Rightarrow> bool" where
  "is_digit c = (48 \<le> (of_char c :: nat) \<and> (of_char c :: nat) \<le> 57)"

definition digit_value :: "char \<Rightarrow> nat" where
  "digit_value c = of_char c - 48"

definition decimal_value :: "string \<Rightarrow> nat" where
  "decimal_value s = foldl (\<lambda>acc c. 10 * acc + digit_value c) 0 s"

definition ex_store_averages :: store where
  "ex_store_averages =
     [(''user_profile:u6'', VProfile \<lparr> p_id = ''u6'', p_email = ''u6@example.org'',
         p_name = ''Fabi'', p_role = ''player'', p_totalScore = 700, p_gamesPlayed = 2000 \<rparr>),
      (''user_profile:u7'', VProfile \<lparr> p_id = ''u7'', p_email = ''u7@example.org'',
         p_name = ''Gil'', p_role = ''player'', p_totalScore = 200, p_gamesPlayed = 3 \<rparr>),
      (''user_profile:u8'', VProfile \<lparr> p_id = ''u8'', p_email = ''u8@example.org'',
         p_name = ''Hugo'', p_role = ''player'', p_totalScore = 1, p_gamesPlayed = 4 \<rparr>),
      (''user_profile:u9'', VProfile \<lparr> p_id = ''u9'', p_email = ''u9@example.org'',
         p_name = ''Iris'', p_role = ''player'', p_totalScore = 900, p_gamesPlayed = 0 \<rparr>)]"

definition ex_ranking_averages :: "RankingEntry list" where
  "ex_ranking_averages =
     [\<lparr> r_position = 1, r_userId = ''u6'', r_name = ''Fabi'', r_totalScore = 700,
        r_gamesPlayed = 2000, r_average = ''0.3'' \<rparr>,
      \<lparr> r_position = 2, r_userId = ''u7'', r_name = ''Gil'', r_totalScore = 200,
        r_gamesPlayed = 3, r_average = ''66.7'' \<rparr>,
      \<lparr> r_position = 3, r_userId = ''u8'', r_name = ''Hugo'', r_totalScore = 1,
        r_gamesPlayed = 4, r_average = ''0.3'' \<rparr>]"

definition ex_store_miskeyed :: store where
  "ex_store_miskeyed = [(''user_profile:x'', VProfile ex_profile)]"

section \<open>The store\<close>

declare decimal.simps [simp del]

lemma kv_get_set: "kv_get (kv_set st k v) k' = (if k' = k then Some v else kv_get st k')"
  by (simp add: kv_get_def kv_set_def update_conv')

lemma kv_get_del: "kv_get (kv_del st k) k' = (if k' = k then None else kv_get st k')"
  by (simp add: kv_get_def kv_del_def delete_conv')

section \<open>submitAnswer on a session that has a current question\<close>

text \<open>
  Claim C1. When the user's active-session pointer leads to a stored session whose current
  index is inside its question list, \<^verbatim>\<open>submitAnswer\<close> succeeds; it awards 100 points
  when the answer equals the current question's correct answer and 0 otherwise (so also
  for the empty answer), stores the session with one more answer record
  \<open>{questionId, answer, correct, points}\<close>, the points added to the score and the index one
  higher, touches no other key, and reports \<open>hasMoreQuestions\<close> exactly when the new index
  is below the number of questions.
\<close>

theorem submitAnswer_scores:
  assumes ptr: "kv_get st (active_session_key userId) = Some (VString sid)" and ne: "sid \<noteq> []"
    and rec: "kv_get st sid = Some (VSession s)"
    and cur: "s_currentQuestion s < length (s_questions s)"
  shows "\<exists>r st'.
           submitAnswer st userId answer = (Inr r, st')
         \<and> sb_correct r = (answer = q_correctAnswer (s_questions s ! s_currentQuestion s))
         \<and> sb_points r = (if answer = q_correctAnswer (s_questions s ! s_currentQuestion s)
                           then 100 else 0)
         \<and> sb_totalScore r = s_score s + sb_points r
         \<and> sb_hasMoreQuestions r = (s_currentQuestion s + 1 < length (s_questions s))
         \<and> kv_get st' sid = Some (VSession (s
              \<lparr> s_score := s_score s + sb_points r,
                s_answers := s_answers s @
                  [\<lparr> a_questionId = q_id (s_questions s ! s_currentQuestion s),
                     a_answer = answer, a_correct = sb_correct r, a_points = sb_points r \<rparr>],
                s_currentQuestion := s_currentQuestion s + 1 \<rparr>))
         \<and> (\<forall>k. k \<noteq> sid \<longrightarrow> kv_get st' k = kv_get st k)"
  using assms by (simp add: submitAnswer_def Let_def kv_get_set)

theorem submitAnswer_scores_witness:
  "\<exists>r st'. submitAnswer ex_store ''u1'' ''Brazil'' = (Inr r, st')
     \<and> sb_points r = 100 \<and> sb_totalScore r = 100 \<and> sb_hasMoreQuestions r
     \<and> kv_get st' ''session:u1:quiz1:5'' =
         Some (VSession (ex_session \<lparr> s_score := 100,
            s_answers := [\<lparr> a_questionId = ''q1'', a_answer = ''Brazil'', a_correct = True,
                            a_points = 100 \<rparr>],
            s_currentQuestion := 1 \<rparr>))"
proof -
  have 1: "kv_get ex_store (active_session_key ''u1'') = Some (VString ''session:u1:quiz1:5'')"
    by (simp add: ex_store_def kv_get_def active_session_key_def)
  have 2: "kv_get ex_store ''session:u1:quiz1:5'' = Some (VSession ex_session)"
    by (simp add: ex_store_def kv_get_def)
  have 3: "s_currentQuestion ex_session < length (s_questions ex_session)"
    by (simp add: ex_session_def)
  have 4: "''session:u1:quiz1:5'' \<noteq> []" by simp
  from submitAnswer_scores [OF 1 4 2 3, of "''Brazil''"]
  show ?thesis by (auto simp add: ex_session_def ex_question1_def)
qed

section \<open>getCurrentQuestion never shows the correct answer\<close>

lemma kv_get_overwrite:
  "kv_get (overwrite_answers f st) k = map_option (overwrite_value f) (kv_get st k)"
  by (induction st) (auto simp: kv_get_def overwrite_answers_def)

lemma falsy_overwrite: "falsy (Some (overwrite_value f w)) = falsy (Some w)"
  by (cases w) simp_all

lemma as_string_overwrite: "as_string (overwrite_value f w) = as_string w"
  by (cases w) simp_all

lemma as_session_overwrite:
  "as_session (overwrite_value f w) =
     (case as_session w of Inl e \<Rightarrow> Inl e
      | Inr s \<Rightarrow> Inr (s \<lparr> s_questions := map (overwrite_answer f) (s_questions s) \<rparr>))"
  by (cases w) simp_all

lemma not_falsy_Some: "\<not> falsy v \<Longrightarrow> \<exists>w. v = Some w"
  by (cases v) simp_all

lemma getCurrentQuestion_overwrite:
  "getCurrentQuestion (overwrite_answers f st) userId = getCurrentQuestion st userId"
proof (cases "falsy (kv_get st (active_session_key userId))")
  case True
  then show ?thesis
    by (cases "kv_get st (active_session_key userId)")
       (simp_all add: getCurrentQuestion_def kv_get_overwrite falsy_overwrite Let_def)
next
  case False
  then obtain w where w: "kv_get st (active_session_key userId) = Some w"
    using not_falsy_Some by blast
  show ?thesis
  proof (cases "as_string w")
    case (Inl e)
    then show ?thesis using False w
      by (simp add: getCurrentQuestion_def kv_get_overwrite falsy_overwrite as_string_overwrite
          Let_def)
  next
    case (Inr sid)
    show ?thesis
    proof (cases "falsy (kv_get st sid)")
      case True
      then show ?thesis using False w Inr
        by (cases "kv_get st sid")
           (simp_all add: getCurrentQuestion_def kv_get_overwrite falsy_overwrite
              as_string_overwrite Let_def)
    next
      case F2: False
      then obtain x where x: "kv_get st sid = Some x"
        using not_falsy_Some by blast
      show ?thesis using False w Inr F2 x
        by (cases "as_session x")
           (simp_all add: getCurrentQuestion_def kv_get_overwrite falsy_overwrite
              as_string_overwrite as_session_overwrite Let_def overwrite_answer_def)
    qed
  qed
qed

lemma getCurrentQuestion_Inr:
  assumes "getCurrentQuestion st userId = Inr r"
  shows "\<exists>sid s. kv_get st (active_session_key userId) = Some (VString sid)
           \<and> kv_get st sid = Some (VSession s)
           \<and> s_status s = Active
           \<and> s_currentQuestion s < length (s_questions s)
           \<and> cq_question r =
               \<lparr> v_id = q_id (s_questions s ! s_currentQuestion s),
                 v_question = q_question (s_questions s ! s_currentQuestion s),
                 v_options = q_options (s_questions s ! s_currentQuestion s) \<rparr>"
proof -
  from assms have nf: "\<not> falsy (kv_get st (active_session_key userId))"
    by (auto simp: getCurrentQuestion_def Let_def split: if_splits)
  then obtain w where w: "kv_get st (active_session_key userId) = Some w"
    using not_falsy_Some by blast
  from assms nf w obtain sid where sid: "w = VString sid"
    by (cases w) (auto simp: getCurrentQuestion_def Let_def)
  from assms nf w sid have nf2: "\<not> falsy (kv_get st sid)"
    by (auto simp: getCurrentQuestion_def Let_def split: if_splits)
  then obtain x where x: "kv_get st sid = Some x"
    using not_falsy_Some by blast
  from assms nf w sid nf2 x obtain s where s: "x = VSession s"
    by (cases x) (auto simp: getCurrentQuestion_def Let_def)
  from assms nf w sid nf2 x s show ?thesis
    by (auto simp: getCurrentQuestion_def Let_def split: if_splits)
qed

text \<open>
  Claim C2. Whenever \<^verbatim>\<open>getCurrentQuestion\<close> succeeds, the question it returns is made
  of the id, the prompt and the options of the stored current question, and nothing else:
  the whole result stays the same when every correct answer in the store is overwritten
  by an arbitrary other string.
\<close>

theorem getCurrentQuestion_projection:
  "getCurrentQuestion (overwrite_answers f st) userId = getCurrentQuestion st userId
   \<and> (\<forall>r. getCurrentQuestion st userId = Inr r \<longrightarrow>
        (\<exists>sid s. kv_get st (active_session_key userId) = Some (VString sid)
           \<and> kv_get st sid = Some (VSession s)
           \<and> s_currentQuestion s < length (s_questions s)
           \<and> cq_question r =
               \<lparr> v_id = q_id (s_questions s ! s_currentQuestion s),
                 v_question = q_question (s_questions s ! s_currentQuestion s),
                 v_options = q_options (s_questions s ! s_currentQuestion s) \<rparr>))"
  using getCurrentQuestion_overwrite getCurrentQuestion_Inr by blast


theorem getCurrentQuestion_projection_witness:
  "getCurrentQuestion ex_store ''u1'' =
     Inr \<lparr> cq_question = \<lparr> v_id = ''q1'', v_question = ''Who won in 1970?'',
                            v_options = [''Brazil'', ''Italy'', ''Peru'', ''Spain''] \<rparr>,
           cq_currentQuestion = 1, cq_totalQuestions = 2, cq_score = 0 \<rparr>
   \<and> getCurrentQuestion (overwrite_answers (\<lambda>q. ''Peru'') ex_store) ''u1'' =
       getCurrentQuestion ex_store ''u1''"
proof -
  have "getCurrentQuestion ex_store ''u1'' =
     Inr \<lparr> cq_question = \<lparr> v_id = ''q1'', v_question = ''Who won in 1970?'',
                            v_options = [''Brazil'', ''Italy'', ''Peru'', ''Spain''] \<rparr>,
           cq_currentQuestion = 1, cq_totalQuestions = 2, cq_score = 0 \<rparr>"
    by (simp add: getCurrentQuestion_def ex_store_def kv_get_def active_session_key_def
        ex_session_def ex_question1_def)
  then show ?thesis
    using getCurrentQuestion_projection [of "\<lambda>q. ''Peru''" ex_store "''u1''"] by simp
qed

section \<open>shuffleArray\<close>

lemma swap_props:
  assumes "a < length h" "i < length (h ! a)" "j < length (h ! a)"
  shows "length (swap h a i j) = length h"
    and "length (swap h a i j ! a) = length (h ! a)"
    and "mset (swap h a i j ! a) = mset (h ! a)"
    and "b \<noteq> a \<Longrightarrow> swap h a i j ! b = h ! b"
  using assms by (simp_all add: swap_def mset_swap)

lemma shuffle_loop_props:
  assumes "a < length h" "i < length (h ! a) \<or> i = 0"
    and "\<forall>k. 0 < k \<and> k \<le> i \<longrightarrow> rnd k \<le> k"
  shows "length (shuffle_loop i rnd a h) = length h
       \<and> length (shuffle_loop i rnd a h ! a) = length (h ! a)
       \<and> mset (shuffle_loop i rnd a h ! a) = mset (h ! a)
       \<and> (\<forall>b. b \<noteq> a \<longrightarrow> shuffle_loop i rnd a h ! b = h ! b)"
  using assms
proof (induction i arbitrary: h)
  case 0
  then show ?case by simp
next
  case (Suc i)
  let ?h = "swap h a (Suc i) (rnd (Suc i))"
  from Suc.prems have i: "Suc i < length (h ! a)" by simp
  from Suc.prems(3) have "rnd (Suc i) \<le> Suc i" by simp
  with i have j: "rnd (Suc i) < length (h ! a)" by simp
  note sp = swap_props [OF Suc.prems(1) i j]
  have "length (shuffle_loop i rnd a ?h) = length ?h
       \<and> length (shuffle_loop i rnd a ?h ! a) = length (?h ! a)
       \<and> mset (shuffle_loop i rnd a ?h ! a) = mset (?h ! a)
       \<and> (\<forall>b. b \<noteq> a \<longrightarrow> shuffle_loop i rnd a ?h ! b = ?h ! b)"
    using Suc.prems i sp by (intro Suc.IH) auto
  then show ?case using sp by simp
qed

text \<open>
  Claim C10. For every array in the heap and every sequence of choices with
  \<open>rnd i \<le> i\<close> at each step \<open>i\<close>, \<^verbatim>\<open>shuffleArray\<close> returns a new array with the
  length and the multiset of elements of its argument, and the argument, like every other
  array that existed before the call, is as it was.
\<close>

theorem shuffleArray_permutation:
  assumes "array < length h"
    and "\<forall>i. 0 < i \<and> i < length (h ! array) \<longrightarrow> rnd i \<le> i"
  shows "case shuffleArray h array rnd of (shuffled, h') \<Rightarrow>
           mset (h' ! shuffled) = mset (h ! array)
         \<and> length (h' ! shuffled) = length (h ! array)
         \<and> shuffled \<noteq> array
         \<and> (\<forall>b < length h. h' ! b = h ! b)"
proof -
  let ?h1 = "h @ [h ! array]"
  let ?s = "length h"
  have a: "?s < length ?h1" by simp
  have s: "?h1 ! ?s = h ! array" by simp
  have i: "length (?h1 ! ?s) - 1 < length (?h1 ! ?s) \<or> length (?h1 ! ?s) - 1 = 0" by auto
  have r: "\<forall>k. 0 < k \<and> k \<le> length (?h1 ! ?s) - 1 \<longrightarrow> rnd k \<le> k"
    using assms(2) by auto
  note L = shuffle_loop_props [OF a i r]
  have "\<forall>b < length h. shuffle_loop (length (?h1 ! ?s) - 1) rnd ?s ?h1 ! b = h ! b"
    using L by (auto simp: nth_append)
  then show ?thesis using L assms(1) s
    by (simp add: shuffleArray_def Let_def del: nth_append_length)
qed

theorem shuffleArray_permutation_witness:
  "shuffleArray [[1, 2, 3, 4 :: nat]] 0 (\<lambda>i. 0) = (1, [[1, 2, 3, 4], [2, 3, 4, 1]])
   \<and> mset [2, 3, 4, 1 :: nat] = mset [1, 2, 3, 4]"
proof -
  have e: "shuffleArray [[1, 2, 3, 4 :: nat]] 0 (\<lambda>i. 0) = (1, [[1, 2, 3, 4], [2, 3, 4, 1]])"
    by (simp add: shuffleArray_def Let_def swap_def numeral_3_eq_3)
  from shuffleArray_permutation [of 0 "[[1, 2, 3, 4 :: nat]]" "\<lambda>i. 0"] e
  show ?thesis by simp
qed

section \<open>submitAnswer against the checks of getCurrentQuestion\<close>

lemma submitAnswer_failure_keeps_store:
  "fst (submitAnswer st userId answer) = Inl e \<Longrightarrow> snd (submitAnswer st userId answer) = st"
  by (auto simp: submitAnswer_def Let_def split: if_splits sum.splits)

text \<open>
  The two failures of the lookup are shared with \<^verbatim>\<open>getCurrentQuestion\<close>, and leave the
  store as it is.
\<close>

lemma submitAnswer_lookup_failures:
  "kv_get st (active_session_key userId) = None \<Longrightarrow>
     getCurrentQuestion st userId = Inl NoActiveSession
     \<and> submitAnswer st userId answer = (Inl NoActiveSession, st)"
  "kv_get st (active_session_key userId) = Some (VString sid) \<Longrightarrow> sid \<noteq> [] \<Longrightarrow>
   kv_get st sid = None \<Longrightarrow>
     getCurrentQuestion st userId = Inl SessionNotFound
     \<and> submitAnswer st userId answer = (Inl SessionNotFound, st)"
  by (simp_all add: getCurrentQuestion_def submitAnswer_def)

text \<open>
  Claim C3. \<^verbatim>\<open>submitAnswer\<close> checks neither the status nor the index. With a pointer to
  a completed session \<^verbatim>\<open>getCurrentQuestion\<close> fails with "Quiz session is not active",
  while \<^verbatim>\<open>submitAnswer\<close> succeeds and writes the session back; on a session past its
  last question \<^verbatim>\<open>getCurrentQuestion\<close> fails with "No more questions", while
  \<^verbatim>\<open>submitAnswer\<close> fails with a \<^verbatim>\<open>TypeError\<close> (without a write).
\<close>

theorem submitAnswer_misses_checks:
  "getCurrentQuestion ex_store_completed ''u1'' = Inl SessionNotActive
   \<and> fst (submitAnswer ex_store_completed ''u1'' ''Brazil'') =
       Inr \<lparr> sb_correct = True, sb_correctAnswer = ''Brazil'', sb_points = 100,
             sb_totalScore = 100, sb_hasMoreQuestions = True \<rparr>
   \<and> snd (submitAnswer ex_store_completed ''u1'' ''Brazil'') \<noteq> ex_store_completed
   \<and> getCurrentQuestion ex_store_exhausted ''u1'' = Inl NoMoreQuestions
   \<and> submitAnswer ex_store_exhausted ''u1'' ''Brazil'' = (Inl TypeError, ex_store_exhausted)"
  by (simp add: getCurrentQuestion_def submitAnswer_def ex_store_completed_def
      ex_store_exhausted_def kv_get_def kv_set_def active_session_key_def ex_session_def
      ex_question1_def ex_question2_def Let_def)

section \<open>trackFastestPlayer\<close>

lemma trackFastestPlayer_without_profile:
  "kv_get st (user_profile_key (s_userId sessionData)) = None \<Longrightarrow>
     trackFastestPlayer st sessionData now = (Inr (), st)"
  by (simp add: trackFastestPlayer_def)

text \<open>
  Claim C5, as stated, fails for a session whose user has no stored profile: the quiz has
  no stored entry, and still nothing is stored.
\<close>

theorem trackFastestPlayer_no_profile_counterexample:
  "kv_get ex_store_other_profile (fastest_key (s_quizId ex_finished)) = None
   \<and> trackFastestPlayer ex_store_other_profile ex_finished 0 = (Inr (), ex_store_other_profile)"
  by (simp add: trackFastestPlayer_def ex_store_other_profile_def kv_get_def fastest_key_def
      user_profile_key_def ex_finished_def ex_session_def)

text \<open>
  Claim C5, amended. When the session's user has no stored profile, nothing is stored.
  When the user has one, with the candidate entry built from the session and the profile:
  if the quiz has no stored entry, the candidate is stored; if it has one, the candidate
  replaces it exactly when it is faster (its duration is positive and the stored duration
  is zero or larger) or its score is strictly higher, and otherwise the store stays as it
  is. The witness is the slower run with the higher score.
\<close>

theorem trackFastestPlayer_rule:
  "(kv_get st (user_profile_key (s_userId sessionData)) = None \<longrightarrow>
      trackFastestPlayer st sessionData now = (Inr (), st))
   \<and> (\<forall>profile. kv_get st (user_profile_key (s_userId sessionData)) = Some (VProfile profile) \<longrightarrow>
        (kv_get st (fastest_key (s_quizId sessionData)) = None \<longrightarrow>
            trackFastestPlayer st sessionData now =
              (Inr (), kv_set st (fastest_key (s_quizId sessionData))
                         (VFastest (candidate_entry sessionData profile now))))
      \<and> (\<forall>current. kv_get st (fastest_key (s_quizId sessionData)) = Some (VFastest current) \<longrightarrow>
            trackFastestPlayer st sessionData now =
              (Inr (),
               if (durationMs_of sessionData > 0 \<and>
                     (f_durationMs current = 0 \<or> durationMs_of sessionData < f_durationMs current))
                  \<or> s_score sessionData > f_score current
               then kv_set st (fastest_key (s_quizId sessionData))
                      (VFastest (candidate_entry sessionData profile now))
               else st)))"
  using trackFastestPlayer_without_profile
  by (auto simp add: trackFastestPlayer_def Let_def candidate_entry_def)

theorem trackFastestPlayer_rule_witness:
  "durationMs_of ex_finished = 8000
   \<and> trackFastestPlayer ex_store_fastest ex_finished 0 =
       (Inr (), [(''user_profile:u1'', VProfile ex_profile),
                 (''fastest:quiz1'', VFastest \<lparr> f_userId = ''u1'', f_name = ''Ana'',
                    f_quizId = ''quiz1'', f_durationMs = 8000, f_score = 150,
                    f_completedAt = 18000 \<rparr>)])
   \<and> trackFastestPlayer [] ex_finished 0 = (Inr (), [])"
proof -
  have p: "kv_get ex_store_fastest (user_profile_key (s_userId ex_finished)) =
             Some (VProfile ex_profile)"
    by (simp add: ex_store_fastest_def kv_get_def user_profile_key_def ex_finished_def
        ex_session_def)
  have c: "kv_get ex_store_fastest (fastest_key (s_quizId ex_finished)) = Some (VFastest ex_fastest)"
    by (simp add: ex_store_fastest_def kv_get_def fastest_key_def ex_finished_def
        ex_session_def)
  have d: "durationMs_of ex_finished = 8000"
    by (simp add: durationMs_of_def ex_finished_def)
  have n: "kv_get [] (user_profile_key (s_userId ex_finished)) = None"
    by (simp add: kv_get_def)
  from trackFastestPlayer_rule [of ex_store_fastest ex_finished 0] p c d
  have 1: "trackFastestPlayer ex_store_fastest ex_finished 0 =
       (Inr (), [(''user_profile:u1'', VProfile ex_profile),
                 (''fastest:quiz1'', VFastest \<lparr> f_userId = ''u1'', f_name = ''Ana'',
                    f_quizId = ''quiz1'', f_durationMs = 8000, f_score = 150,
                    f_completedAt = 18000 \<rparr>)])"
    by (simp add: ex_fastest_def candidate_entry_def ex_finished_def ex_session_def
        ex_profile_def fastest_key_def kv_set_def ex_store_fastest_def)
  from trackFastestPlayer_rule [of "[]" ex_finished 0] n
  have 2: "trackFastestPlayer [] ex_finished 0 = (Inr (), [])" by simp
  from d 1 2 show ?thesis by simp
qed

section \<open>The ranking cache\<close>

lemma calculateRanking_example: "calculateRanking ex_store_profiles = Inr ex_ranking"
  by code_simp

lemma cache_keys_distinct: "CACHE_KEY \<noteq> CACHE_TIMESTAMP_KEY"
  by (simp add: CACHE_KEY_def CACHE_TIMESTAMP_KEY_def)

lemma kv_get_cacheRanking:
  "kv_get (cacheRanking st ranking written) k =
     (if k = CACHE_TIMESTAMP_KEY then Some (VNumber written)
      else if k = CACHE_KEY then Some (VRanking ranking)
      else kv_get st k)"
  by (simp add: cacheRanking_def kv_get_set)

lemma getRankingFromCache_hit:
  assumes "kv_get st CACHE_KEY = Some (VRanking cached)"
    and "kv_get st CACHE_TIMESTAMP_KEY = Some (VNumber timestamp)"
    and "now - timestamp \<le> 30000"
  shows "getRankingFromCache st now = Inr (Some cached)"
  using assms by (simp add: getRankingFromCache_def CACHE_TTL_MS_def)

lemma getRankingFromCache_miss:
  assumes "kv_get st CACHE_KEY = None \<or> kv_get st CACHE_TIMESTAMP_KEY = None
           \<or> (\<exists>cached timestamp. kv_get st CACHE_KEY = Some (VRanking cached)
                 \<and> kv_get st CACHE_TIMESTAMP_KEY = Some (VNumber timestamp)
                 \<and> now - timestamp > 30000)"
  shows "getRankingFromCache st now = Inr None"
  using assms by (auto simp add: getRankingFromCache_def CACHE_TTL_MS_def Let_def)

text \<open>
  Claim C6. When the cache value and its timestamp are both stored and \<open>now\<close> minus the
  timestamp is at most 30000, \<^verbatim>\<open>getGlobalRanking\<close> returns the cached list as it is
  and leaves the store alone. When the value or the timestamp is absent, or the age is
  above 30000, it returns the list that \<^verbatim>\<open>calculateRanking\<close> computes from the
  profiles, and afterwards the cache key holds that list and the timestamp key the time of
  the write, every other key being as before.
\<close>

theorem getGlobalRanking_cache:
  "(\<forall>cached timestamp.
       kv_get st CACHE_KEY = Some (VRanking cached)
     \<and> kv_get st CACHE_TIMESTAMP_KEY = Some (VNumber timestamp)
     \<and> now - timestamp \<le> 30000
     \<longrightarrow> getGlobalRanking st now written = (Inr cached, st))
   \<and> (\<forall>ranking.
       calculateRanking st = Inr ranking
     \<and> (kv_get st CACHE_KEY = None \<or> kv_get st CACHE_TIMESTAMP_KEY = None
        \<or> (\<exists>cached timestamp. kv_get st CACHE_KEY = Some (VRanking cached)
              \<and> kv_get st CACHE_TIMESTAMP_KEY = Some (VNumber timestamp)
              \<and> now - timestamp > 30000))
     \<longrightarrow> (\<exists>st'. getGlobalRanking st now written = (Inr ranking, st')
           \<and> kv_get st' CACHE_KEY = Some (VRanking ranking)
           \<and> kv_get st' CACHE_TIMESTAMP_KEY = Some (VNumber written)
           \<and> (\<forall>k. k \<noteq> CACHE_KEY \<and> k \<noteq> CACHE_TIMESTAMP_KEY \<longrightarrow> kv_get st' k = kv_get st k)))"
proof (intro conjI allI impI)
  fix cached timestamp
  assume "kv_get st CACHE_KEY = Some (VRanking cached)
     \<and> kv_get st CACHE_TIMESTAMP_KEY = Some (VNumber timestamp)
     \<and> now - timestamp \<le> 30000"
  then have "getRankingFromCache st now = Inr (Some cached)"
    using getRankingFromCache_hit by blast
  then show "getGlobalRanking st now written = (Inr cached, st)"
    by (simp add: getGlobalRanking_def)
next
  fix ranking
  assume a: "calculateRanking st = Inr ranking
     \<and> (kv_get st CACHE_KEY = None \<or> kv_get st CACHE_TIMESTAMP_KEY = None
        \<or> (\<exists>cached timestamp. kv_get st CACHE_KEY = Some (VRanking cached)
              \<and> kv_get st CACHE_TIMESTAMP_KEY = Some (VNumber timestamp)
              \<and> now - timestamp > 30000))"
  then have "getRankingFromCache st now = Inr None"
    using getRankingFromCache_miss by blast
  with a have "getGlobalRanking st now written = (Inr ranking, cacheRanking st ranking written)"
    by (simp add: getGlobalRanking_def)
  then show "\<exists>st'. getGlobalRanking st now written = (Inr ranking, st')
           \<and> kv_get st' CACHE_KEY = Some (VRanking ranking)
           \<and> kv_get st' CACHE_TIMESTAMP_KEY = Some (VNumber written)
           \<and> (\<forall>k. k \<noteq> CACHE_KEY \<and> k \<noteq> CACHE_TIMESTAMP_KEY \<longrightarrow> kv_get st' k = kv_get st k)"
    using cache_keys_distinct by (simp add: kv_get_cacheRanking)
qed

theorem getGlobalRanking_cache_witness:
  "getGlobalRanking ex_store_profiles 31000 31000 = (Inr [], ex_store_profiles)
   \<and> (\<exists>st'. getGlobalRanking ex_store_profiles 31001 31002 = (Inr ex_ranking, st')
         \<and> kv_get st' CACHE_KEY = Some (VRanking ex_ranking)
         \<and> kv_get st' CACHE_TIMESTAMP_KEY = Some (VNumber 31002))"
proof -
  have c: "kv_get ex_store_profiles CACHE_KEY = Some (VRanking [])"
    by (simp add: ex_store_profiles_def kv_get_def CACHE_KEY_def)
  have t: "kv_get ex_store_profiles CACHE_TIMESTAMP_KEY = Some (VNumber 1000)"
    by (simp add: ex_store_profiles_def kv_get_def CACHE_TIMESTAMP_KEY_def)
  from getGlobalRanking_cache [of ex_store_profiles 31000 31000] c t
  have 1: "getGlobalRanking ex_store_profiles 31000 31000 = (Inr [], ex_store_profiles)"
    by simp
  from getGlobalRanking_cache [of ex_store_profiles 31001 31002] c t calculateRanking_example
  have 2: "\<exists>st'. getGlobalRanking ex_store_profiles 31001 31002 = (Inr ex_ranking, st')
         \<and> kv_get st' CACHE_KEY = Some (VRanking ex_ranking)
         \<and> kv_get st' CACHE_TIMESTAMP_KEY = Some (VNumber 31002)"
    by auto
  from 1 2 show ?thesis by simp
qed

section \<open>getTopPlayers\<close>

lemma slice0_cases:
  "slice0 xs limit =
     (if 0 \<le> limit then take (nat limit) xs else take (length xs - nat (- limit)) xs)"
  by (auto simp: slice0_def Let_def max_def min_def nat_diff_distrib' intro!: arg_cong2[where f=take])

text \<open>
  Claim C8, as stated, fails for a negative limit: on a cached ranking of three entries
  \<^verbatim>\<open>getTopPlayers(-1)\<close> returns the first two, not the empty list.
\<close>

theorem getTopPlayers_negative_limit_counterexample:
  "fst (getTopPlayers ex_store_cached (- 1) 2000 2000) = Inr ex_ranking
   \<and> ex_ranking \<noteq> []"
  by (simp add: getTopPlayers_def getGlobalRanking_def getRankingFromCache_def
      ex_store_cached_def kv_get_def CACHE_KEY_def CACHE_TIMESTAMP_KEY_def CACHE_TTL_MS_def
      slice0_def ex_ranking3_def ex_ranking_def)

text \<open>
  Claim C8, amended. \<^verbatim>\<open>getTopPlayers(limit)\<close> returns the first \<open>limit\<close> entries of
  the ranking for \<open>limit \<ge> 0\<close>: none for 0, all of them when \<open>limit\<close> is at least the
  length. For a negative limit \<open>- k\<close> it returns the ranking without its last \<open>k\<close> entries.
\<close>

theorem getTopPlayers_slice:
  assumes "getGlobalRanking st now written = (Inr ranking, st1)"
  shows "\<exists>top. getTopPlayers st limit now written = (Inr top, st1)
           \<and> (0 \<le> limit \<longrightarrow> top = take (nat limit) ranking)
           \<and> (limit = 0 \<longrightarrow> top = [])
           \<and> (int (length ranking) \<le> limit \<longrightarrow> top = ranking)
           \<and> (limit < 0 \<longrightarrow> top = take (length ranking - nat (- limit)) ranking)"
  using assms by (simp add: getTopPlayers_def slice0_cases)

theorem getTopPlayers_slice_witness:
  "getTopPlayers ex_store_cached 0 2000 2000 = (Inr [], ex_store_cached)
   \<and> getTopPlayers ex_store_cached 1000 2000 2000 = (Inr ex_ranking3, ex_store_cached)
   \<and> getTopPlayers ex_store_cached (- 1) 2000 2000 = (Inr (take 2 ex_ranking3), ex_store_cached)"
proof -
  have g: "getGlobalRanking ex_store_cached 2000 2000 = (Inr ex_ranking3, ex_store_cached)"
    by (simp add: getGlobalRanking_def getRankingFromCache_def
      ex_store_cached_def kv_get_def CACHE_KEY_def CACHE_TIMESTAMP_KEY_def CACHE_TTL_MS_def)
  have l: "length ex_ranking3 = 3" by (simp add: ex_ranking3_def ex_ranking_def)
  from getTopPlayers_slice [OF g, of 0] getTopPlayers_slice [OF g, of 1000]
    getTopPlayers_slice [OF g, of "- 1"] l
  show ?thesis by auto
qed

section \<open>getUserStats\<close>








section \<open>calculateRanking\<close>

lemma parse_all_as_profile:
  "parse_all as_profile vs = Inr ps \<Longrightarrow> vs = map VProfile ps"
proof (induction vs arbitrary: ps)
  case Nil
  then show ?case by simp
next
  case (Cons v vs)
  then show ?case by (cases v) (auto split: sum.splits)
qed

lemma ranked_length:
  "length (map (\<lambda>(index, profile). ranking_entry index profile) (enumerate 0 ps)) = length ps"
  by simp

lemma ranked_nth:
  "i < length ps \<Longrightarrow>
     map (\<lambda>(index, profile). ranking_entry index profile) (enumerate 0 ps) ! i =
       ranking_entry i (ps ! i)"
  by (simp add: nth_enumerate_eq)

lemma ranked_projection:
  "map (\<lambda>e. (r_userId e, r_name e, r_totalScore e, r_gamesPlayed e))
       (map (\<lambda>(index, profile). ranking_entry index profile) (enumerate 0 ps)) =
   map (\<lambda>p. (p_id p, p_name p, p_totalScore p, p_gamesPlayed p)) ps"
  by (rule nth_equalityI) (simp_all add: nth_enumerate_eq ranking_entry_def)

lemma sort_by_totalScore_desc_props:
  "mset (sort_by_totalScore_desc ps) = mset ps"
  "length (sort_by_totalScore_desc ps) = length ps"
  "set (sort_by_totalScore_desc ps) = set ps"
  "i \<le> j \<Longrightarrow> j < length ps \<Longrightarrow>
     p_totalScore (sort_by_totalScore_desc ps ! j) \<le> p_totalScore (sort_by_totalScore_desc ps ! i)"
proof -
  show "mset (sort_by_totalScore_desc ps) = mset ps"
    by (simp add: sort_by_totalScore_desc_def)
  show "length (sort_by_totalScore_desc ps) = length ps"
    by (simp add: sort_by_totalScore_desc_def)
  show "set (sort_by_totalScore_desc ps) = set ps"
    by (simp add: sort_by_totalScore_desc_def)
  assume ij: "i \<le> j" "j < length ps"
  let ?xs = "map (\<lambda>p. - p_totalScore p) (sort_key (\<lambda>p. - p_totalScore p) ps)"
  have "sorted ?xs" by (rule sorted_sort_key)
  moreover have "j < length ?xs" using ij by simp
  ultimately have "?xs ! i \<le> ?xs ! j" using ij(1) by (simp only: sorted_nth_mono)
  then show "p_totalScore (sort_by_totalScore_desc ps ! j)
               \<le> p_totalScore (sort_by_totalScore_desc ps ! i)"
    using ij by (simp add: sort_by_totalScore_desc_def)
qed

text \<open>Reading a printed number back.\<close>

lemma digit_char_props:
  assumes "n < 10"
  shows "is_digit (digit_char n)" "digit_value (digit_char n) = n"
    "(digit_char n = CHR ''0'') = (n = 0)"
proof -
  have o: "(of_char (digit_char n) :: nat) = 48 + n"
    using assms by simp
  show "is_digit (digit_char n)" using assms by (simp add: is_digit_def o del: digit_char.simps)
  show "digit_value (digit_char n) = n" by (simp add: digit_value_def o del: digit_char.simps)
  have "(digit_char n = CHR ''0'') = ((of_char (digit_char n) :: nat) = of_char CHR ''0'')"
    by (simp only: of_char_eq_iff)
  then show "(digit_char n = CHR ''0'') = (n = 0)"
    by (simp add: o del: digit_char.simps)
qed

lemma decimal_small: "n < 10 \<Longrightarrow> decimal n = [digit_char n]"
  by (simp add: decimal.simps del: digit_char.simps)

lemma decimal_value_snoc:
  "decimal_value (s @ [c]) = 10 * decimal_value s + digit_value c"
  by (simp add: decimal_value_def)

lemma decimal_props:
  "decimal n \<noteq> [] \<and> (\<forall>c \<in> set (decimal n). is_digit c) \<and> decimal_value (decimal n) = n
   \<and> (hd (decimal n) = CHR ''0'' \<longrightarrow> n = 0)"
proof (induction n rule: decimal.induct)
  case (1 n)
  show ?case
  proof (cases "n < 10")
    case True
    then show ?thesis
      using digit_char_props [OF True]
      by (simp add: decimal_small decimal_value_def del: digit_char.simps)
  next
    case False
    then have d: "decimal n = decimal (n div 10) @ [digit_char (n mod 10)]"
      by (subst decimal.simps) simp
    have m: "n mod 10 < 10" by simp
    from False have nz: "n div 10 \<noteq> 0" by simp
    from 1 False have IH: "decimal (n div 10) \<noteq> []"
      "\<forall>c \<in> set (decimal (n div 10)). is_digit c"
      "decimal_value (decimal (n div 10)) = n div 10"
      "hd (decimal (n div 10)) = CHR ''0'' \<longrightarrow> n div 10 = 0"
      by simp_all
    show ?thesis
      using IH nz digit_char_props [OF m]
      by (simp add: d decimal_value_snoc del: digit_char.simps)
  qed
qed

lemma toFixed1_reading:
  "\<exists>w d. toFixed1 x = (if x < 0 then ''-'' else []) @ w @ ''.'' @ [d]
      \<and> w \<noteq> [] \<and> (\<forall>c \<in> set (w @ [d]). is_digit c)
      \<and> (hd w = CHR ''0'' \<longrightarrow> w = ''0'')
      \<and> int (decimal_value (w @ [d])) = \<lfloor>\<bar>x\<bar> * 10 + 1 / 2\<rfloor>"
proof -
  let ?n = "nat \<lfloor>\<bar>x\<bar> * 10 + 1 / 2\<rfloor>"
  let ?w = "decimal (?n div 10)"
  let ?d = "digit_char (?n mod 10)"
  have m: "?n mod 10 < 10" by simp
  have nn: "0 \<le> \<lfloor>\<bar>x\<bar> * 10 + 1 / 2\<rfloor>" by simp
  have t: "toFixed1 x = (if x < 0 then ''-'' else []) @ ?w @ ''.'' @ [?d]"
    by (simp add: toFixed1_def Let_def decimal_small [OF m] del: digit_char.simps)
  have z: "hd ?w = CHR ''0'' \<longrightarrow> ?w = ''0''"
  proof
    assume "hd ?w = CHR ''0''"
    then have "?n div 10 = 0" using decimal_props [of "?n div 10"] by blast
    then show "?w = ''0''" using digit_char_props(3) [of 0]
      by (simp add: decimal.simps del: digit_char.simps)
  qed
  have v: "int (decimal_value (?w @ [?d])) = \<lfloor>\<bar>x\<bar> * 10 + 1 / 2\<rfloor>"
    using decimal_props [of "?n div 10"] digit_char_props(2) [OF m] nn
    by (simp add: decimal_value_snoc del: digit_char.simps)
  show ?thesis
    using t z v decimal_props [of "?n div 10"] digit_char_props(1) [OF m]
    by (intro exI [of _ ?w] exI [of _ ?d]) (simp del: digit_char.simps)
qed

text \<open>
  \<open>to_double\<close> rounds with a relative error of at most \<open>2\<^sup>-\<^sup>5\<^sup>3\<close> and keeps every integer up
  to \<open>2\<^sup>5\<^sup>3\<close>.
\<close>

lemma bitlen_powi:
  assumes "0 < (a :: int)"
  shows "(2 :: rat) powi (bitlen a - 1) \<le> of_int a" "of_int a < (2 :: rat) powi (bitlen a)"
proof -
  from bitlen_bounds [OF assms]
  have 1: "2 ^ nat (bitlen a - 1) \<le> a" and 2: "a < 2 ^ nat (bitlen a)" by simp_all
  have p: "bitlen a \<ge> 1" using assms by (simp add: bitlen_def floorlog_def)
  have "(of_int (2 ^ nat (bitlen a - 1)) :: rat) \<le> of_int a" using 1 by (simp only: of_int_le_iff)
  then show "(2 :: rat) powi (bitlen a - 1) \<le> of_int a" using p by (simp add: power_int_def)
  have "(of_int a :: rat) < of_int (2 ^ nat (bitlen a))" using 2 by (simp only: of_int_less_iff)
  then show "of_int a < (2 :: rat) powi (bitlen a)" using p by (simp add: power_int_def)
qed

lemma floor_log2_bounds:
  assumes "0 < y"
  shows "2 powi floor_log2 y \<le> y" "y < 2 powi (floor_log2 y + 1)"
proof -
  obtain a b where q: "quotient_of y = (a, b)" by (cases "quotient_of y")
  then have b: "0 < b" by (rule quotient_of_denom_pos)
  from q have y: "y = of_int a / of_int b" by (rule quotient_of_div)
  from assms y b have a: "0 < a" by (simp add: zero_less_divide_iff)
  let ?k = "bitlen a - bitlen b"
  note A = bitlen_powi [OF a] and B = bitlen_powi [OF b]
  have bpos: "(0 :: rat) < of_int b" using b by simp
  have lo: "2 powi (?k - 1) \<le> y"
  proof -
    have "(2 :: rat) powi (?k - 1) = 2 powi (bitlen a - 1) / 2 powi bitlen b"
      by (simp add: power_int_diff)
    also have "\<dots> \<le> of_int a / 2 powi bitlen b"
      using A(1) by (simp add: divide_right_mono)
    also have "\<dots> \<le> of_int a / of_int b"
      using B(2) a bpos by (simp add: frac_le)
    finally show ?thesis by (simp add: y)
  qed
  have hi: "y < 2 powi (?k + 1)"
  proof -
    have "y < 2 powi bitlen a / of_int b"
      using A(2) bpos by (simp add: y divide_strict_right_mono)
    also have "\<dots> \<le> 2 powi bitlen a / 2 powi (bitlen b - 1)"
      using B(1) bpos by (simp add: frac_le)
    also have "\<dots> = 2 powi (?k + 1)"
      by (simp add: power_int_diff [symmetric] algebra_simps)
    finally show ?thesis .
  qed
  show "2 powi floor_log2 y \<le> y" using lo by (simp add: floor_log2_def q Let_def)
  show "y < 2 powi (floor_log2 y + 1)" using hi by (auto simp add: floor_log2_def q Let_def)
qed

lemma round_half_even_error: "\<bar>of_int (round_half_even y) - y\<bar> \<le> 1 / 2"
proof -
  define r where "r = y - of_int \<lfloor>y\<rfloor>"
  have r: "0 \<le> r" "r < 1" unfolding r_def by linarith+
  have y: "y = of_int \<lfloor>y\<rfloor> + r" by (simp add: r_def)
  have "round_half_even y = \<lfloor>y\<rfloor> \<and> r \<le> 1 / 2 \<or> round_half_even y = \<lfloor>y\<rfloor> + 1 \<and> 1 / 2 \<le> r"
    unfolding round_half_even_def Let_def r_def [symmetric] by auto
  then show ?thesis
  proof
    assume a: "round_half_even y = \<lfloor>y\<rfloor> \<and> r \<le> 1 / 2"
    then have "of_int (round_half_even y) - y = - r" by (simp add: r_def)
    then show ?thesis using a r by simp
  next
    assume a: "round_half_even y = \<lfloor>y\<rfloor> + 1 \<and> 1 / 2 \<le> r"
    then have "of_int (round_half_even y) - y = 1 - r" by (simp add: r_def)
    then show ?thesis using a r by simp
  qed
qed

lemma round_half_even_int [simp]: "round_half_even (of_int z) = z"
  by (simp add: round_half_even_def)

lemma to_double_error: "\<bar>to_double x - x\<bar> \<le> \<bar>x\<bar> / 2 ^ 53"
proof (cases "x = 0")
  case True
  then show ?thesis by (simp add: to_double_def)
next
  case False
  let ?y = "\<bar>x\<bar>"
  let ?e = "floor_log2 ?y - 52"
  let ?s = "(2 :: rat) powi ?e"
  let ?m = "round_half_even (?y / ?s)"
  have ypos: "0 < ?y" using False by simp
  have spos: "0 < ?s" by simp
  have td: "to_double x = sgn x * of_int ?m * ?s"
    using False by (simp add: to_double_def Let_def)
  have x: "x = sgn x * ?y" by (simp add: sgn_if)
  have "to_double x - x = sgn x * (of_int ?m * ?s - ?y)"
    by (subst x, subst td) (simp add: algebra_simps sgn_if)
  then have "\<bar>to_double x - x\<bar> = \<bar>of_int ?m * ?s - ?y\<bar>"
    using False by (simp add: abs_mult sgn_if)
  also have "of_int ?m * ?s - ?y = (of_int ?m - ?y / ?s) * ?s"
    using spos by (simp add: algebra_simps)
  also have "\<bar>\<dots>\<bar> = \<bar>of_int ?m - ?y / ?s\<bar> * ?s"
    using spos by (simp add: abs_mult)
  also have "\<dots> \<le> 1 / 2 * ?s"
    using round_half_even_error [of "?y / ?s"] spos by (intro mult_right_mono) simp_all
  also have "1 / 2 * ?s = 2 powi floor_log2 ?y / 2 ^ 53"
    by (simp add: power_int_diff)
  also have "\<dots> \<le> ?y / 2 ^ 53"
    using floor_log2_bounds(1) [OF ypos] by (simp add: divide_right_mono)
  finally show ?thesis .
qed

lemma powi_mono: "(a :: int) \<le> b \<Longrightarrow> (2 :: rat) powi a \<le> 2 powi b"
  by (rule power_int_increasing) simp_all

lemma to_double_int:
  assumes "\<bar>n\<bar> \<le> 2 ^ 53"
  shows "to_double (of_int n) = of_int n"
proof (cases "n = 0")
  case True
  then show ?thesis by (simp add: to_double_def)
next
  case False
  let ?y = "\<bar>of_int n :: rat\<bar>"
  let ?L = "floor_log2 ?y"
  let ?e = "?L - 52"
  have ypos: "0 < ?y" using False by simp
  have yint: "?y = of_int \<bar>n\<bar>" by simp
  have yle: "?y \<le> 2 ^ 53"
  proof -
    have "(of_int \<bar>n\<bar> :: rat) \<le> of_int (2 ^ 53)" using assms by (simp only: of_int_le_iff)
    then show ?thesis by simp
  qed
  note fb = floor_log2_bounds [OF ypos]
  have L53: "?L \<le> 53"
  proof (rule ccontr)
    assume "\<not> ?L \<le> 53"
    then have "54 \<le> ?L" by simp
    then have "(2 :: rat) powi 54 \<le> 2 powi ?L" by (rule powi_mono)
    with fb(1) yle show False by simp
  qed
  have m: "of_int (round_half_even (?y / 2 powi ?e)) * 2 powi ?e = ?y"
  proof (cases "?L \<le> 52")
    case True
    then have "?y / 2 powi ?e = of_int (\<bar>n\<bar> * 2 ^ nat (- ?e))"
      by (simp add: power_int_def field_simps)
    then have "round_half_even (?y / 2 powi ?e) = \<bar>n\<bar> * 2 ^ nat (- ?e)"
      by (simp only: round_half_even_int)
    then show ?thesis using True by (simp add: power_int_def field_simps)
  next
    case F: False
    with L53 have L: "?L = 53" by simp
    then have "2 ^ 53 \<le> ?y" using fb(1) by simp
    with yle have y: "?y = 2 ^ 53" by simp
    have "?e = 1" using L by simp
    then have "?y / 2 powi ?e = of_int (2 ^ 52)" by (simp add: y)
    then have "round_half_even (?y / 2 powi ?e) = 2 ^ 52"
      by (simp only: round_half_even_int)
    then show ?thesis using \<open>?e = 1\<close> by (simp add: y)
  qed
  have "to_double (of_int n) = sgn (of_int n) * ?y"
    using False m by (simp add: to_double_def Let_def mult.assoc)
  then show ?thesis by (simp add: sgn_if)
qed

lemma calculateRanking_averages_example:
  "calculateRanking ex_store_averages = Inr ex_ranking_averages"
  by code_simp

lemma js_divide_error:
  assumes "\<bar>t\<bar> \<le> 2 ^ 53" "\<bar>g\<bar> \<le> 2 ^ 53"
  shows "\<bar>js_divide t g - of_int t / of_int g\<bar> \<le> \<bar>of_int t / of_int g\<bar> / 2 ^ 53"
  using assms to_double_error [of "of_int t / of_int g"]
  by (simp add: js_divide_def to_double_int)

text \<open>
  Claim C7. Whatever profiles are stored, the ranking that \<^verbatim>\<open>calculateRanking\<close>
  returns holds exactly those with gamesPlayed above 0 (as a multiset of user id, name,
  total and games), in descending order of totalScore, each at position index + 1. Each
  average is a decimal numeral with one digit after the point (no leading zero but a
  single \<open>0\<close>, a minus sign for a negative quotient) whose digits read the integer nearest
  to ten times the double quotient \<open>totalScore / gamesPlayed\<close>, the larger one at a tie;
  and for integers up to \<open>2\<^sup>5\<^sup>3\<close> that double is within \<open>2\<^sup>-\<^sup>5\<^sup>3\<close> of the exact quotient,
  relatively.
\<close>

theorem calculateRanking_spec:
  assumes "calculateRanking st = Inr ranking"
  shows "\<exists>profiles.
           kv_getByPrefix st ''user_profile:'' = map VProfile profiles
         \<and> mset (map (\<lambda>e. (r_userId e, r_name e, r_totalScore e, r_gamesPlayed e)) ranking) =
             mset (map (\<lambda>p. (p_id p, p_name p, p_totalScore p, p_gamesPlayed p))
                       (filter (\<lambda>p. p_gamesPlayed p > 0) profiles))
         \<and> (\<forall>i j. i \<le> j \<and> j < length ranking \<longrightarrow>
                r_totalScore (ranking ! j) \<le> r_totalScore (ranking ! i))
         \<and> (\<forall>i < length ranking. r_position (ranking ! i) = i + 1)
         \<and> (\<forall>e \<in> set ranking. r_gamesPlayed e > 0
                \<and> (\<exists>w d. r_average e =
                        (if js_divide (r_totalScore e) (r_gamesPlayed e) < 0 then ''-'' else [])
                          @ w @ ''.'' @ [d]
                      \<and> w \<noteq> [] \<and> (\<forall>c \<in> set (w @ [d]). is_digit c)
                      \<and> (hd w = CHR ''0'' \<longrightarrow> w = ''0'')
                      \<and> int (decimal_value (w @ [d])) =
                          \<lfloor>\<bar>js_divide (r_totalScore e) (r_gamesPlayed e)\<bar> * 10 + 1 / 2\<rfloor>)
                \<and> (\<bar>r_totalScore e\<bar> \<le> 2 ^ 53 \<and> r_gamesPlayed e \<le> 2 ^ 53 \<longrightarrow>
                     \<bar>js_divide (r_totalScore e) (r_gamesPlayed e)
                        - of_int (r_totalScore e) / of_int (r_gamesPlayed e)\<bar>
                       \<le> \<bar>of_int (r_totalScore e) / of_int (r_gamesPlayed e)\<bar> / 2 ^ 53))"
proof -
  from assms obtain profiles where
    pa: "parse_all as_profile (kv_getByPrefix st ''user_profile:'') = Inr profiles"
    by (auto simp: calculateRanking_def split: sum.splits)
  let ?played = "filter (\<lambda>p. p_gamesPlayed p > 0) profiles"
  let ?sorted = "sort_by_totalScore_desc ?played"
  from assms pa have r: "ranking =
      map (\<lambda>(index, profile). ranking_entry index profile) (enumerate 0 ?sorted)"
    by (simp add: calculateRanking_def)
  have len: "length ranking = length ?sorted" by (simp add: r)
  have nth: "\<And>i. i < length ranking \<Longrightarrow> ranking ! i = ranking_entry i (?sorted ! i)"
    using len by (simp add: r nth_enumerate_eq)
  have 1: "kv_getByPrefix st ''user_profile:'' = map VProfile profiles"
    using pa by (rule parse_all_as_profile)
  have "map (\<lambda>e. (r_userId e, r_name e, r_totalScore e, r_gamesPlayed e)) ranking =
        map (\<lambda>p. (p_id p, p_name p, p_totalScore p, p_gamesPlayed p)) ?sorted"
    unfolding r by (rule ranked_projection)
  then have 2: "mset (map (\<lambda>e. (r_userId e, r_name e, r_totalScore e, r_gamesPlayed e)) ranking) =
             mset (map (\<lambda>p. (p_id p, p_name p, p_totalScore p, p_gamesPlayed p)) ?played)"
    by (simp add: sort_by_totalScore_desc_props(1))
  have 3: "\<forall>i j. i \<le> j \<and> j < length ranking \<longrightarrow>
                r_totalScore (ranking ! j) \<le> r_totalScore (ranking ! i)"
  proof (intro allI impI)
    fix i j assume ij: "i \<le> j \<and> j < length ranking"
    then have "j < length ?played" "i < length ranking"
      using len by (simp_all add: sort_by_totalScore_desc_props(2))
    with ij have "p_totalScore (?sorted ! j) \<le> p_totalScore (?sorted ! i)"
      using sort_by_totalScore_desc_props(4) by blast
    with ij \<open>i < length ranking\<close>
    show "r_totalScore (ranking ! j) \<le> r_totalScore (ranking ! i)"
      by (simp add: nth ranking_entry_def)
  qed
  have 4: "\<forall>i < length ranking. r_position (ranking ! i) = i + 1"
    by (simp add: nth ranking_entry_def)
  have 5: "\<forall>e \<in> set ranking. r_gamesPlayed e > 0
                \<and> (\<exists>w d. r_average e =
                        (if js_divide (r_totalScore e) (r_gamesPlayed e) < 0 then ''-'' else [])
                          @ w @ ''.'' @ [d]
                      \<and> w \<noteq> [] \<and> (\<forall>c \<in> set (w @ [d]). is_digit c)
                      \<and> (hd w = CHR ''0'' \<longrightarrow> w = ''0'')
                      \<and> int (decimal_value (w @ [d])) =
                          \<lfloor>\<bar>js_divide (r_totalScore e) (r_gamesPlayed e)\<bar> * 10 + 1 / 2\<rfloor>)
                \<and> (\<bar>r_totalScore e\<bar> \<le> 2 ^ 53 \<and> r_gamesPlayed e \<le> 2 ^ 53 \<longrightarrow>
                     \<bar>js_divide (r_totalScore e) (r_gamesPlayed e)
                        - of_int (r_totalScore e) / of_int (r_gamesPlayed e)\<bar>
                       \<le> \<bar>of_int (r_totalScore e) / of_int (r_gamesPlayed e)\<bar> / 2 ^ 53)"
  proof
    fix e assume "e \<in> set ranking"
    then obtain i where i: "i < length ranking" "e = ranking ! i"
      by (auto simp: in_set_conv_nth)
    then have "?sorted ! i \<in> set ?sorted" using len by simp
    then have g: "p_gamesPlayed (?sorted ! i) > 0"
      by (simp add: sort_by_totalScore_desc_props(3))
    have e: "r_gamesPlayed e > 0"
      "r_average e = toFixed1 (js_divide (r_totalScore e) (r_gamesPlayed e))"
      using i g by (simp_all add: nth ranking_entry_def)
    have b: "\<bar>r_totalScore e\<bar> \<le> 2 ^ 53 \<and> r_gamesPlayed e \<le> 2 ^ 53 \<longrightarrow>
                     \<bar>js_divide (r_totalScore e) (r_gamesPlayed e)
                        - of_int (r_totalScore e) / of_int (r_gamesPlayed e)\<bar>
                       \<le> \<bar>of_int (r_totalScore e) / of_int (r_gamesPlayed e)\<bar> / 2 ^ 53"
      using js_divide_error [of "r_totalScore e" "r_gamesPlayed e"] e(1) by simp
    show "r_gamesPlayed e > 0
                \<and> (\<exists>w d. r_average e =
                        (if js_divide (r_totalScore e) (r_gamesPlayed e) < 0 then ''-'' else [])
                          @ w @ ''.'' @ [d]
                      \<and> w \<noteq> [] \<and> (\<forall>c \<in> set (w @ [d]). is_digit c)
                      \<and> (hd w = CHR ''0'' \<longrightarrow> w = ''0'')
                      \<and> int (decimal_value (w @ [d])) =
                          \<lfloor>\<bar>js_divide (r_totalScore e) (r_gamesPlayed e)\<bar> * 10 + 1 / 2\<rfloor>)
                \<and> (\<bar>r_totalScore e\<bar> \<le> 2 ^ 53 \<and> r_gamesPlayed e \<le> 2 ^ 53 \<longrightarrow>
                     \<bar>js_divide (r_totalScore e) (r_gamesPlayed e)
                        - of_int (r_totalScore e) / of_int (r_gamesPlayed e)\<bar>
                       \<le> \<bar>of_int (r_totalScore e) / of_int (r_gamesPlayed e)\<bar> / 2 ^ 53)"
      using e(1) b toFixed1_reading [of "js_divide (r_totalScore e) (r_gamesPlayed e)"]
      unfolding e(2) by blast
  qed
  from 1 2 3 4 5 show ?thesis by blast
qed

theorem calculateRanking_spec_witness:
  "calculateRanking ex_store_averages =
     Inr [\<lparr> r_position = 1, r_userId = ''u6'', r_name = ''Fabi'', r_totalScore = 700,
             r_gamesPlayed = 2000, r_average = ''0.3'' \<rparr>,
          \<lparr> r_position = 2, r_userId = ''u7'', r_name = ''Gil'', r_totalScore = 200,
             r_gamesPlayed = 3, r_average = ''66.7'' \<rparr>,
          \<lparr> r_position = 3, r_userId = ''u8'', r_name = ''Hugo'', r_totalScore = 1,
             r_gamesPlayed = 4, r_average = ''0.3'' \<rparr>]
   \<and> length (kv_getByPrefix ex_store_averages ''user_profile:'') = 4
   \<and> decimal_value ''667'' = 667
   \<and> \<lfloor>\<bar>js_divide 200 3\<bar> * 10 + 1 / 2\<rfloor> = 667
   \<and> \<lfloor>\<bar>js_divide 700 2000\<bar> * 10 + 1 / 2\<rfloor> = 3
   \<and> \<lfloor>\<bar>js_divide 1 4\<bar> * 10 + 1 / 2\<rfloor> = 3"
proof -
  have c: "calculateRanking ex_store_averages = Inr ex_ranking_averages"
    by (rule calculateRanking_averages_example)
  have g: "length (kv_getByPrefix ex_store_averages ''user_profile:'') = 4"
    by (simp add: kv_getByPrefix_def ex_store_averages_def startsWith_def)
  have v: "decimal_value ''667'' = 667" by code_simp
  have q: "\<lfloor>\<bar>js_divide 200 3\<bar> * 10 + 1 / 2\<rfloor> = 667"
    "\<lfloor>\<bar>js_divide 700 2000\<bar> * 10 + 1 / 2\<rfloor> = 3"
    "\<lfloor>\<bar>js_divide 1 4\<bar> * 10 + 1 / 2\<rfloor> = 3"
    by code_simp+
  from calculateRanking_spec [OF c] c g v q show ?thesis
    by (simp add: ex_ranking_averages_def)
qed

section \<open>Who changes totalScore and gamesPlayed\<close>

lemma profile_of_eq: "(profile_of st u = Some p) = (kv_get st (user_profile_key u) = Some (VProfile p))"
  by (auto simp: profile_of_def split: option.splits kv_value.splits)

lemma key_neq [simp]:
  "active_session_key a \<noteq> user_profile_key u"
  "session_key a b n \<noteq> user_profile_key u"
  "fastest_key q \<noteq> user_profile_key u"
  "ranking_key n a \<noteq> user_profile_key u"
  "CACHE_KEY \<noteq> user_profile_key u"
  "CACHE_TIMESTAMP_KEY \<noteq> user_profile_key u"
  "user_profile_key u \<noteq> active_session_key a"
  "user_profile_key u \<noteq> session_key a b n"
  "user_profile_key u \<noteq> fastest_key q"
  "user_profile_key u \<noteq> ranking_key n a"
  "user_profile_key u \<noteq> CACHE_KEY"
  "user_profile_key u \<noteq> CACHE_TIMESTAMP_KEY"
  by (simp_all add: active_session_key_def user_profile_key_def session_key_def fastest_key_def
      ranking_key_def CACHE_KEY_def CACHE_TIMESTAMP_KEY_def)

lemma user_profile_key_inj [simp]: "(user_profile_key a = user_profile_key b) = (a = b)"
  by (simp add: user_profile_key_def)

lemma profile_key_not_fastest [simp]: "\<not> startsWith (user_profile_key u) ''fastest:''"
  by (simp add: startsWith_def user_profile_key_def)

lemma profile_key_prefix [simp]: "startsWith (user_profile_key u) ''user_profile:''"
  by (simp add: startsWith_def user_profile_key_def)

lemma kv_get_mdel: "kv_get (kv_mdel st ks) k = (if k \<in> set ks then None else kv_get st k)"
  by (induction st) (auto simp: kv_get_def kv_mdel_def)

lemma kv_get_resetAllFastest:
  "\<not> startsWith k ''fastest:'' \<Longrightarrow> kv_get (resetAllFastest st) k = kv_get st k"
  by (simp add: resetAllFastest_def Let_def kv_get_mdel kv_getKeysByPrefix_def)

lemma kv_get_invalidateCache:
  "kv_get (invalidateCache st) k =
     (if k = CACHE_KEY \<or> k = CACHE_TIMESTAMP_KEY then None else kv_get st k)"
  by (simp add: invalidateCache_def kv_get_del)

lemma getGlobalRanking_frame:
  "k \<noteq> CACHE_KEY \<Longrightarrow> k \<noteq> CACHE_TIMESTAMP_KEY \<Longrightarrow>
     kv_get (snd (getGlobalRanking st now written)) k = kv_get st k"
  by (simp add: getGlobalRanking_def kv_get_cacheRanking split: sum.splits option.splits)

lemma getUserPosition_store:
  "snd (getUserPosition st userId now written) = snd (getGlobalRanking st now written)"
  by (simp add: getUserPosition_def split: prod.splits sum.splits)

lemma getTopPlayers_store:
  "snd (getTopPlayers st limit now written) = snd (getGlobalRanking st now written)"
  by (simp add: getTopPlayers_def split: prod.splits sum.splits)

lemma getRankingStats_store:
  "snd (getRankingStats st now written) = snd (getGlobalRanking st now written)"
  by (simp add: getRankingStats_def Let_def split: prod.splits sum.splits)

lemma startSession_frame:
  "kv_get (snd (startSession st userId quizId team now started rnd)) (user_profile_key u) =
     kv_get st (user_profile_key u)"
  by (simp add: startSession_def Let_def kv_get_set split: sum.splits)

lemma submitAnswer_frame:
  assumes "kv_get st k = Some (VProfile p)"
  shows "kv_get (snd (submitAnswer st userId answer)) k = Some (VProfile p)"
proof (cases "fst (submitAnswer st userId answer)")
  case (Inl e)
  then show ?thesis using assms submitAnswer_failure_keeps_store by simp
next
  case (Inr r)
  then show ?thesis using assms
    by (auto simp: submitAnswer_def Let_def kv_get_set split: if_splits sum.splits
        dest!: not_falsy_Some)
qed

lemma updateUserScore_profile:
  assumes "kv_get st (user_profile_key u) = Some (VProfile p)"
  shows "kv_get (snd (updateUserScore st userId scoreToAdd)) (user_profile_key u) =
     Some (VProfile (if userId = u
       then p \<lparr> p_totalScore := p_totalScore p + scoreToAdd,
                p_gamesPlayed := p_gamesPlayed p + 1 \<rparr>
       else p))"
proof (cases "userId = u")
  case True
  then show ?thesis using assms by (simp add: updateUserScore_def Let_def kv_get_set)
next
  case False
  then show ?thesis using assms
    by (simp add: updateUserScore_def Let_def kv_get_set split: sum.splits)
qed

lemma trackFastestPlayer_frame:
  "kv_get (snd (trackFastestPlayer st sessionData now)) (user_profile_key u) =
     kv_get st (user_profile_key u)"
  by (simp add: trackFastestPlayer_def Let_def kv_get_set split: sum.splits)

lemma finishQuiz_failure:
  "falsy (kv_get st (active_session_key userId)) \<Longrightarrow>
     snd (finishQuiz st userId finished now) = st"
  by (simp add: finishQuiz_def)

lemma finishQuiz_profile:
  assumes p: "kv_get st (user_profile_key u) = Some (VProfile p)"
  shows "kv_get (snd (finishQuiz st userId finished now)) (user_profile_key u) = Some (VProfile p)
       \<or> (userId = u \<and> (\<exists>sid s.
             kv_get st (active_session_key userId) = Some (VString sid)
           \<and> kv_get st sid = Some (VSession s)
           \<and> kv_get (snd (finishQuiz st userId finished now)) (user_profile_key u) =
               Some (VProfile (p \<lparr> p_totalScore := p_totalScore p + s_score s,
                                    p_gamesPlayed := p_gamesPlayed p + 1 \<rparr>))))"
proof (cases "falsy (kv_get st (active_session_key userId))")
  case True
  then show ?thesis using p by (simp add: finishQuiz_def)
next
  case False
  then obtain w where w: "kv_get st (active_session_key userId) = Some w"
    using not_falsy_Some by blast
  show ?thesis
  proof (cases w)
    case (VString sid)
    show ?thesis
    proof (cases "falsy (kv_get st sid)")
      case True
      then show ?thesis using False w VString p by (simp add: finishQuiz_def)
    next
      case F2: False
      then obtain x where x: "kv_get st sid = Some x"
        using not_falsy_Some by blast
      show ?thesis
      proof (cases x)
        case (VSession s)
        let ?s = "s \<lparr> s_status := Completed, s_completedAt := Some finished \<rparr>"
        let ?st2 = "kv_del (kv_set st sid (VSession ?s)) (active_session_key userId)"
        have sid: "sid \<noteq> user_profile_key u" using x VSession p by auto
        have p2: "kv_get ?st2 (user_profile_key u) = Some (VProfile p)"
          using p sid by (simp add: kv_get_del kv_get_set)
        note up = updateUserScore_profile [OF p2, of userId "s_score ?s"]
        obtain r3 st3 where u3: "updateUserScore ?st2 userId (s_score ?s) = (r3, st3)"
          by (cases "updateUserScore ?st2 userId (s_score ?s)")
        obtain r4 st4 where t4: "trackFastestPlayer st3 ?s finished = (r4, st4)"
          by (cases "trackFastestPlayer st3 ?s finished")
        have g3: "kv_get st3 (user_profile_key u) =
            Some (VProfile (if userId = u
              then p \<lparr> p_totalScore := p_totalScore p + s_score s,
                       p_gamesPlayed := p_gamesPlayed p + 1 \<rparr> else p))"
          using up u3 by simp
        have g4: "kv_get st4 (user_profile_key u) = kv_get st3 (user_profile_key u)"
          using trackFastestPlayer_frame [of st3 ?s finished u] t4 by simp
        have "kv_get (snd (finishQuiz st userId finished now)) (user_profile_key u) =
                kv_get st3 (user_profile_key u)"
          using False w VString F2 x VSession u3 t4 g4
          by (simp add: finishQuiz_def Let_def kv_get_set split: sum.splits)
        with g3 w VString x VSession show ?thesis by auto
      qed (use False w VString F2 x p in \<open>simp_all add: finishQuiz_def\<close>)
    qed
  qed (use False w p in \<open>simp_all add: finishQuiz_def\<close>)
qed

lemma kv_get_reset_profile:
  "kv_get (reset_profile q st) k =
     (if k = user_profile_key (p_id q)
      then Some (VProfile (q \<lparr> p_totalScore := 0, p_gamesPlayed := 0 \<rparr>))
      else kv_get st k)"
  by (simp add: reset_profile_def kv_get_set)

lemma kv_get_fold_reset:
  "kv_get (fold reset_profile ps st) k =
     (case find (\<lambda>q. user_profile_key (p_id q) = k) (rev ps) of
        Some q \<Rightarrow> Some (VProfile (q \<lparr> p_totalScore := 0, p_gamesPlayed := 0 \<rparr>))
      | None \<Rightarrow> kv_get st k)"
  by (induction ps rule: rev_induct) (simp_all add: kv_get_reset_profile)

lemma parse_all_profiles:
  "\<forall>v \<in> set vs. \<exists>q. v = VProfile q \<Longrightarrow> \<exists>ps. parse_all as_profile vs = Inr ps"
proof (induction vs)
  case Nil
  then show ?case by simp
next
  case (Cons v vs)
  then obtain q ps where "v = VProfile q" "parse_all as_profile vs = Inr ps" by auto
  then show ?case by simp
qed

lemma in_getByPrefix:
  "v \<in> set (kv_getByPrefix st pre) = (\<exists>k. (k, v) \<in> set st \<and> startsWith k pre)"
  by (force simp: kv_getByPrefix_def)

lemma is_profile_under_iff:
  "is_profile_under k v = (\<exists>q. v = VProfile q \<and> k = user_profile_key (p_id q))"
  by (cases v) auto

lemma find_SomeD: "find P xs = Some x \<Longrightarrow> x \<in> set xs \<and> P x"
  by (induction xs) (auto split: if_splits)

lemma resetAllRankings_profile:
  assumes wf: "profiles_well_keyed st"
    and p: "kv_get st (user_profile_key u) = Some (VProfile p)"
  shows "fst (resetAllRankings st) = Inr ()
       \<and> kv_get (snd (resetAllRankings st)) (user_profile_key u) =
           Some (VProfile (p \<lparr> p_totalScore := 0, p_gamesPlayed := 0 \<rparr>))"
proof -
  let ?pre = "''user_profile:''"
  from wf have dist: "distinct (map fst st)"
    and keyed: "\<And>k v. (k, v) \<in> set st \<Longrightarrow> startsWith k ?pre \<Longrightarrow>
                  \<exists>q. v = VProfile q \<and> k = user_profile_key (p_id q)"
    by (auto simp: profiles_well_keyed_def is_profile_under_iff)
  have "\<forall>v \<in> set (kv_getByPrefix st ?pre). \<exists>q. v = VProfile q"
    using keyed by (fastforce simp: in_getByPrefix)
  then obtain ps where pa: "parse_all as_profile (kv_getByPrefix st ?pre) = Inr ps"
    using parse_all_profiles by blast
  then have ps: "kv_getByPrefix st ?pre = map VProfile ps"
    by (rule parse_all_as_profile)
  have mem: "(user_profile_key u, VProfile p) \<in> set st"
    using p by (simp add: kv_get_def map_of_SomeD)
  then have idp: "user_profile_key u = user_profile_key (p_id p)"
    using keyed [OF mem] by auto
  have "VProfile p \<in> set (kv_getByPrefix st ?pre)"
    using mem by (auto simp: in_getByPrefix)
  then have pin: "p \<in> set ps" using ps by auto
  have uniq: "q = p" if "q \<in> set ps" "user_profile_key (p_id q) = user_profile_key u" for q
  proof -
    from that(1) ps have "VProfile q \<in> set (kv_getByPrefix st ?pre)" by simp
    then obtain k where k: "(k, VProfile q) \<in> set st" "startsWith k ?pre"
      by (auto simp: in_getByPrefix)
    from keyed [OF k] that(2) have "k = user_profile_key u" by simp
    with k(1) mem dist have "VProfile q = VProfile p"
      using eq_key_imp_eq_value by fastforce
    then show ?thesis by simp
  qed
  have "\<exists>q. find (\<lambda>q. user_profile_key (p_id q) = user_profile_key u) (rev ps) = Some q"
    using pin idp by (cases "find (\<lambda>q. user_profile_key (p_id q) = user_profile_key u) (rev ps)")
      (auto simp: find_None_iff)
  then obtain q where q: "find (\<lambda>q. user_profile_key (p_id q) = user_profile_key u) (rev ps) = Some q"
    by blast
  then have "q \<in> set ps" "user_profile_key (p_id q) = user_profile_key u"
    using find_SomeD [OF q] by simp_all
  then have "q = p" by (rule uniq)
  with q have "kv_get (fold reset_profile ps st) (user_profile_key u) =
      Some (VProfile (p \<lparr> p_totalScore := 0, p_gamesPlayed := 0 \<rparr>))"
    by (simp add: kv_get_fold_reset)
  then show ?thesis using pa
    by (simp add: resetAllRankings_def kv_get_invalidateCache)
qed

text \<open>
  No stored session has a negative score: an invariant of every operation, since a new
  session starts at 0 and each answer adds 0 or 100.
\<close>

lemma scores_nonneg_alt: "scores_nonneg st = (\<forall>kv \<in> set st. score_ok (snd kv))"
  unfolding scores_nonneg_def
  by (intro ball_cong refl) (simp split: kv_value.splits)

lemma set_update_subset: "set (AList.update k v al) \<subseteq> insert (k, v) (set al)"
  by (induction al) auto

lemma scores_nonneg_set:
  "scores_nonneg st \<Longrightarrow> score_ok v \<Longrightarrow> scores_nonneg (kv_set st k v)"
  using set_update_subset [of k v st] by (auto simp: scores_nonneg_alt kv_set_def)

lemma scores_nonneg_del: "scores_nonneg st \<Longrightarrow> scores_nonneg (kv_del st k)"
  by (auto simp: scores_nonneg_alt kv_del_def AList.delete_eq)

lemma scores_nonneg_mdel: "scores_nonneg st \<Longrightarrow> scores_nonneg (kv_mdel st ks)"
  by (auto simp: scores_nonneg_alt kv_mdel_def)

lemma scores_nonneg_get:
  "scores_nonneg st \<Longrightarrow> kv_get st k = Some (VSession s) \<Longrightarrow> 0 \<le> s_score s"
  by (auto simp: scores_nonneg_alt kv_get_def dest!: map_of_SomeD)

lemma scores_nonneg_startSession:
  "scores_nonneg st \<Longrightarrow>
     scores_nonneg (snd (startSession st userId quizId team now started rnd))"
  by (simp add: startSession_def Let_def scores_nonneg_set split: sum.splits)

lemma scores_nonneg_submitAnswer:
  assumes "scores_nonneg st"
  shows "scores_nonneg (snd (submitAnswer st userId answer))"
proof (cases "fst (submitAnswer st userId answer)")
  case (Inl e)
  then show ?thesis using assms submitAnswer_failure_keeps_store by simp
next
  case (Inr r)
  then obtain sid s where "kv_get st sid = Some (VSession s)"
    and "snd (submitAnswer st userId answer) =
      kv_set st sid (VSession (s
        \<lparr> s_score := s_score s +
             (if answer = q_correctAnswer (s_questions s ! s_currentQuestion s) then 100 else 0),
          s_answers := s_answers s @
            [\<lparr> a_questionId = q_id (s_questions s ! s_currentQuestion s), a_answer = answer,
               a_correct = (answer = q_correctAnswer (s_questions s ! s_currentQuestion s)),
               a_points =
                 (if answer = q_correctAnswer (s_questions s ! s_currentQuestion s)
                  then 100 else 0) \<rparr>],
          s_currentQuestion := s_currentQuestion s + 1 \<rparr>))"
    by (auto simp: submitAnswer_def Let_def split: if_splits sum.splits
        dest!: not_falsy_Some elim!: as_session.elims)
  then show ?thesis
    using assms scores_nonneg_get [OF assms] by (auto intro!: scores_nonneg_set)
qed

lemma scores_nonneg_updateUserScore:
  "scores_nonneg st \<Longrightarrow> scores_nonneg (snd (updateUserScore st userId scoreToAdd))"
  by (simp add: updateUserScore_def Let_def scores_nonneg_set split: sum.splits)

lemma scores_nonneg_trackFastestPlayer:
  "scores_nonneg st \<Longrightarrow> scores_nonneg (snd (trackFastestPlayer st sessionData now))"
  by (simp add: trackFastestPlayer_def Let_def scores_nonneg_set split: sum.splits)

lemma scores_nonneg_finishQuiz:
  assumes "scores_nonneg st"
  shows "scores_nonneg (snd (finishQuiz st userId finished now))"
proof (cases "falsy (kv_get st (active_session_key userId))")
  case True
  then show ?thesis using assms by (simp add: finishQuiz_def)
next
  case False
  then obtain w where w: "kv_get st (active_session_key userId) = Some w"
    using not_falsy_Some by blast
  show ?thesis
  proof (cases w)
    case (VString sid)
    show ?thesis
    proof (cases "falsy (kv_get st sid)")
      case True
      then show ?thesis using False w VString assms by (simp add: finishQuiz_def)
    next
      case F2: False
      then obtain x where x: "kv_get st sid = Some x"
        using not_falsy_Some by blast
      show ?thesis
      proof (cases x)
        case (VSession s)
        let ?s = "s \<lparr> s_status := Completed, s_completedAt := Some finished \<rparr>"
        let ?st2 = "kv_del (kv_set st sid (VSession ?s)) (active_session_key userId)"
        have "0 \<le> s_score s" using assms x VSession by (simp add: scores_nonneg_get)
        then have 2: "scores_nonneg ?st2"
          using assms by (simp add: scores_nonneg_del scores_nonneg_set)
        obtain r3 st3 where u3: "updateUserScore ?st2 userId (s_score ?s) = (r3, st3)"
          by (cases "updateUserScore ?st2 userId (s_score ?s)")
        obtain r4 st4 where t4: "trackFastestPlayer st3 ?s finished = (r4, st4)"
          by (cases "trackFastestPlayer st3 ?s finished")
        have 3: "scores_nonneg st3"
          using scores_nonneg_updateUserScore [OF 2, of userId "s_score ?s"] u3 by simp
        have 4: "scores_nonneg st4"
          using scores_nonneg_trackFastestPlayer [OF 3, of ?s finished] t4 by simp
        show ?thesis
          using False w VString F2 x VSession u3 t4 3 4
          by (simp add: finishQuiz_def Let_def scores_nonneg_set split: sum.splits)
      qed (use False w VString F2 x assms in \<open>simp_all add: finishQuiz_def\<close>)
    qed
  qed (use False w assms in \<open>simp_all add: finishQuiz_def\<close>)
qed

lemma scores_nonneg_getGlobalRanking:
  "scores_nonneg st \<Longrightarrow> scores_nonneg (snd (getGlobalRanking st now written))"
  by (simp add: getGlobalRanking_def cacheRanking_def scores_nonneg_set
      split: sum.splits option.splits)

lemma scores_nonneg_fold_reset:
  "scores_nonneg st \<Longrightarrow> scores_nonneg (fold reset_profile ps st)"
  by (induction ps arbitrary: st) (simp_all add: reset_profile_def scores_nonneg_set)

lemma run_keeps_scores_nonneg: "scores_nonneg st \<Longrightarrow> scores_nonneg (run op st)"
proof (cases op)
  case ResetAllFastest
  then show "scores_nonneg st \<Longrightarrow> scores_nonneg (run op st)"
    by (simp add: resetAllFastest_def Let_def scores_nonneg_mdel)
next
  case ResetAllRankings
  then show "scores_nonneg st \<Longrightarrow> scores_nonneg (run op st)"
    by (simp add: resetAllRankings_def invalidateCache_def scores_nonneg_del
        scores_nonneg_fold_reset split: sum.splits)
qed (simp_all add: scores_nonneg_startSession scores_nonneg_submitAnswer
      scores_nonneg_finishQuiz scores_nonneg_updateUserScore scores_nonneg_trackFastestPlayer
      scores_nonneg_getGlobalRanking getUserPosition_store getTopPlayers_store
      getRankingStats_store invalidateCache_def scores_nonneg_del)

text \<open>
  Claim C4, as stated, fails on \<^verbatim>\<open>resetAllRankings\<close>: it is not
  \<^verbatim>\<open>updateUserScore\<close>, and it takes a profile with total 100 in 1 game to total 0 in
  0 games.
\<close>

theorem resetAllRankings_zeroes_counterexample:
  "profile_of ex_store ''u1'' = Some ex_profile
   \<and> p_totalScore ex_profile = 100 \<and> p_gamesPlayed ex_profile = 1
   \<and> profile_of (snd (resetAllRankings ex_store)) ''u1'' =
       Some (ex_profile \<lparr> p_totalScore := 0, p_gamesPlayed := 0 \<rparr>)"
  by (simp add: profile_of_def ex_store_def kv_get_def user_profile_key_def ex_profile_def
      resetAllRankings_def kv_getByPrefix_def startsWith_def reset_profile_def kv_set_def
      invalidateCache_def kv_del_def CACHE_KEY_def CACHE_TIMESTAMP_KEY_def)

text \<open>\<^verbatim>\<open>resetAllRankings\<close> on any store, and the stores on which it resets every profile.\<close>

lemma resetAllRankings_any:
  assumes p: "kv_get st (user_profile_key u) = Some (VProfile p)"
  shows "kv_get (snd (resetAllRankings st)) (user_profile_key u) = Some (VProfile p)
       \<or> (\<exists>q. kv_get (snd (resetAllRankings st)) (user_profile_key u) =
              Some (VProfile (q \<lparr> p_totalScore := 0, p_gamesPlayed := 0 \<rparr>)))"
    and "fst (resetAllRankings st) = Inr () \<Longrightarrow> p_id p = u \<Longrightarrow>
         \<exists>q. p_id q = u \<and> kv_get (snd (resetAllRankings st)) (user_profile_key u) =
              Some (VProfile (q \<lparr> p_totalScore := 0, p_gamesPlayed := 0 \<rparr>))"
proof -
  let ?pre = "''user_profile:''"
  let ?P = "\<lambda>q. user_profile_key (p_id q) = user_profile_key u"
  show "kv_get (snd (resetAllRankings st)) (user_profile_key u) = Some (VProfile p)
       \<or> (\<exists>q. kv_get (snd (resetAllRankings st)) (user_profile_key u) =
              Some (VProfile (q \<lparr> p_totalScore := 0, p_gamesPlayed := 0 \<rparr>)))"
  proof (cases "parse_all as_profile (kv_getByPrefix st ?pre)")
    case (Inl e)
    then show ?thesis using p by (simp add: resetAllRankings_def)
  next
    case (Inr ps)
    then show ?thesis using p
      by (cases "find ?P (rev ps)")
         (auto simp add: resetAllRankings_def kv_get_invalidateCache kv_get_fold_reset)
  qed
  assume ok: "fst (resetAllRankings st) = Inr ()" and own: "p_id p = u"
  from ok obtain ps where pa: "parse_all as_profile (kv_getByPrefix st ?pre) = Inr ps"
    by (cases "parse_all as_profile (kv_getByPrefix st ?pre)")
       (simp_all add: resetAllRankings_def)
  then have ps: "kv_getByPrefix st ?pre = map VProfile ps"
    by (rule parse_all_as_profile)
  have "(user_profile_key u, VProfile p) \<in> set st"
    using p by (simp add: kv_get_def map_of_SomeD)
  then have "VProfile p \<in> set (kv_getByPrefix st ?pre)"
    by (auto simp: in_getByPrefix)
  then have "p \<in> set ps" using ps by auto
  then obtain q where q: "find ?P (rev ps) = Some q"
    using own by (cases "find ?P (rev ps)") (auto simp: find_None_iff)
  then have "p_id q = u" using find_SomeD [OF q] by simp
  then show "\<exists>q. p_id q = u \<and> kv_get (snd (resetAllRankings st)) (user_profile_key u) =
              Some (VProfile (q \<lparr> p_totalScore := 0, p_gamesPlayed := 0 \<rparr>))"
    using q pa by (auto simp: resetAllRankings_def kv_get_invalidateCache kv_get_fold_reset)
qed

lemma well_keyed_iff:
  "profiles_well_keyed st =
     (distinct (map fst st) \<and>
      (\<forall>k v. (k, v) \<in> set st \<longrightarrow> startsWith k ''user_profile:'' \<longrightarrow> is_profile_under k v))"
  by (auto simp: profiles_well_keyed_def)

lemma well_keyed_set:
  assumes "profiles_well_keyed st"
    and "startsWith k ''user_profile:'' \<longrightarrow> is_profile_under k v"
  shows "profiles_well_keyed (kv_set st k v)"
  using assms set_update_subset [of k v st]
  by (auto simp: well_keyed_iff kv_set_def distinct_update)

lemma well_keyed_del: "profiles_well_keyed st \<Longrightarrow> profiles_well_keyed (kv_del st k)"
proof -
  assume a: "profiles_well_keyed st"
  have "set (AList.delete k st) \<subseteq> set st" by (auto simp: AList.delete_eq)
  then show ?thesis using a
    by (auto simp: well_keyed_iff kv_del_def distinct_delete)
qed

lemma well_keyed_mdel: "profiles_well_keyed st \<Longrightarrow> profiles_well_keyed (kv_mdel st ks)"
  by (auto simp: well_keyed_iff kv_mdel_def distinct_map_filter)

lemma well_keyed_get:
  "profiles_well_keyed st \<Longrightarrow> kv_get st k = Some v \<Longrightarrow> startsWith k ''user_profile:'' \<Longrightarrow>
     is_profile_under k v"
  by (auto simp: well_keyed_iff kv_get_def dest!: map_of_SomeD)

lemma other_keys_not_profile [simp]:
  "\<not> startsWith (active_session_key a) ''user_profile:''"
  "\<not> startsWith (session_key a b n) ''user_profile:''"
  "\<not> startsWith (fastest_key q) ''user_profile:''"
  "\<not> startsWith (ranking_key n a) ''user_profile:''"
  "\<not> startsWith CACHE_KEY ''user_profile:''"
  "\<not> startsWith CACHE_TIMESTAMP_KEY ''user_profile:''"
  by (simp_all add: startsWith_def active_session_key_def session_key_def fastest_key_def
      ranking_key_def CACHE_KEY_def CACHE_TIMESTAMP_KEY_def)

lemma well_keyed_startSession:
  "profiles_well_keyed st \<Longrightarrow>
     profiles_well_keyed (snd (startSession st userId quizId team now started rnd))"
  by (simp add: startSession_def Let_def well_keyed_set split: sum.splits)

lemma well_keyed_session_write:
  assumes "profiles_well_keyed st" "kv_get st sid = Some (VSession s)"
  shows "profiles_well_keyed (kv_set st sid (VSession s'))"
proof -
  have "\<not> startsWith sid ''user_profile:''"
    using well_keyed_get [OF assms] by auto
  then show ?thesis using assms(1) by (simp add: well_keyed_set)
qed

lemma well_keyed_submitAnswer:
  assumes "profiles_well_keyed st"
  shows "profiles_well_keyed (snd (submitAnswer st userId answer))"
proof (cases "fst (submitAnswer st userId answer)")
  case (Inl e)
  then show ?thesis using assms submitAnswer_failure_keeps_store by simp
next
  case (Inr r)
  then obtain sid s s' where "kv_get st sid = Some (VSession s)"
    and "snd (submitAnswer st userId answer) = kv_set st sid (VSession s')"
    by (auto simp: submitAnswer_def Let_def split: if_splits sum.splits
        dest!: not_falsy_Some elim!: as_session.elims)
  then show ?thesis using assms by (simp add: well_keyed_session_write)
qed

lemma well_keyed_updateUserScore:
  assumes "profiles_well_keyed st"
  shows "profiles_well_keyed (snd (updateUserScore st userId scoreToAdd))"
proof (cases "kv_get st (user_profile_key userId)")
  case None
  then show ?thesis using assms by (simp add: updateUserScore_def)
next
  case (Some v)
  have "is_profile_under (user_profile_key userId) v"
    using well_keyed_get [OF assms Some] by simp
  then obtain q where q: "v = VProfile q" "user_profile_key userId = user_profile_key (p_id q)"
    by (auto simp: is_profile_under_iff)
  then show ?thesis using assms Some
    by (simp add: updateUserScore_def well_keyed_set)
qed

lemma well_keyed_trackFastestPlayer:
  "profiles_well_keyed st \<Longrightarrow> profiles_well_keyed (snd (trackFastestPlayer st sessionData now))"
  by (simp add: trackFastestPlayer_def Let_def well_keyed_set split: sum.splits)

lemma well_keyed_finishQuiz:
  assumes "profiles_well_keyed st"
  shows "profiles_well_keyed (snd (finishQuiz st userId finished now))"
proof (cases "falsy (kv_get st (active_session_key userId))")
  case True
  then show ?thesis using assms by (simp add: finishQuiz_def)
next
  case False
  then obtain w where w: "kv_get st (active_session_key userId) = Some w"
    using not_falsy_Some by blast
  show ?thesis
  proof (cases w)
    case (VString sid)
    show ?thesis
    proof (cases "falsy (kv_get st sid)")
      case True
      then show ?thesis using False w VString assms by (simp add: finishQuiz_def)
    next
      case F2: False
      then obtain x where x: "kv_get st sid = Some x"
        using not_falsy_Some by blast
      show ?thesis
      proof (cases x)
        case (VSession s)
        let ?s = "s \<lparr> s_status := Completed, s_completedAt := Some finished \<rparr>"
        let ?st2 = "kv_del (kv_set st sid (VSession ?s)) (active_session_key userId)"
        have 2: "profiles_well_keyed ?st2"
          using assms x VSession by (simp add: well_keyed_del well_keyed_session_write)
        obtain r3 st3 where u3: "updateUserScore ?st2 userId (s_score ?s) = (r3, st3)"
          by (cases "updateUserScore ?st2 userId (s_score ?s)")
        obtain r4 st4 where t4: "trackFastestPlayer st3 ?s finished = (r4, st4)"
          by (cases "trackFastestPlayer st3 ?s finished")
        have 3: "profiles_well_keyed st3"
          using well_keyed_updateUserScore [OF 2, of userId "s_score ?s"] u3 by simp
        have 4: "profiles_well_keyed st4"
          using well_keyed_trackFastestPlayer [OF 3, of ?s finished] t4 by simp
        show ?thesis
          using False w VString F2 x VSession u3 t4 3 4
          by (simp add: finishQuiz_def Let_def well_keyed_set split: sum.splits)
      qed (use False w VString F2 x assms in \<open>simp_all add: finishQuiz_def\<close>)
    qed
  qed (use False w assms in \<open>simp_all add: finishQuiz_def\<close>)
qed

lemma well_keyed_getGlobalRanking:
  "profiles_well_keyed st \<Longrightarrow> profiles_well_keyed (snd (getGlobalRanking st now written))"
  by (simp add: getGlobalRanking_def cacheRanking_def well_keyed_set
      split: sum.splits option.splits)

lemma well_keyed_fold_reset:
  "profiles_well_keyed st \<Longrightarrow> profiles_well_keyed (fold reset_profile ps st)"
  by (induction ps arbitrary: st) (simp_all add: reset_profile_def well_keyed_set)

lemma run_keeps_profiles_well_keyed:
  "profiles_well_keyed st \<Longrightarrow> profiles_well_keyed (run op st)"
proof (cases op)
  case ResetAllFastest
  then show "profiles_well_keyed st \<Longrightarrow> profiles_well_keyed (run op st)"
    by (simp add: resetAllFastest_def Let_def well_keyed_mdel)
next
  case ResetAllRankings
  then show "profiles_well_keyed st \<Longrightarrow> profiles_well_keyed (run op st)"
    by (simp add: resetAllRankings_def invalidateCache_def well_keyed_del
        well_keyed_fold_reset split: sum.splits)
qed (simp_all add: well_keyed_startSession well_keyed_submitAnswer
      well_keyed_finishQuiz well_keyed_updateUserScore well_keyed_trackFastestPlayer
      well_keyed_getGlobalRanking getUserPosition_store getTopPlayers_store
      getRankingStats_store invalidateCache_def well_keyed_del)

text \<open>
  Claim C4, amended. For every stored user profile and every state-changing operation of
  the core: \<^verbatim>\<open>updateUserScore\<close> adds its argument to totalScore and 1 to gamesPlayed
  of the user it names; \<^verbatim>\<open>finishQuiz\<close> either leaves the profile as it is or, for the
  finishing user, adds the session's score and 1 game (its call of
  \<^verbatim>\<open>updateUserScore\<close>); every operation other than these and
  \<^verbatim>\<open>resetAllRankings\<close> leaves the profile as it is. After
  \<^verbatim>\<open>resetAllRankings\<close> the profile is unchanged or has both fields 0: both are 0
  when the reset succeeds and the profile is stored under the key of its own id, and the
  other fields are kept as well when every profile is stored under its own id with one
  entry per key (\<open>profiles_well_keyed\<close>); a profile stored under a key that is not its id
  can keep its totals, as the witness shows. \<^verbatim>\<open>resetAllRankings\<close> apart, neither
  field ever decreases, provided no stored session has a negative score and
  \<^verbatim>\<open>updateUserScore\<close> is given no negative score. Both provisos on the store,
  \<open>scores_nonneg\<close> and \<open>profiles_well_keyed\<close>, are kept by every operation. The
  operations that only read (\<^verbatim>\<open>getCurrentQuestion\<close>, \<^verbatim>\<open>getSession\<close>,
  \<^verbatim>\<open>hasActiveSession\<close>, \<^verbatim>\<open>getUserStats\<close>, \<^verbatim>\<open>getSessionScore\<close>,
  \<^verbatim>\<open>getFastestByQuiz\<close>) return no store.
\<close>

theorem profile_totals_change:
  assumes "profile_of st u = Some p"
  shows "(case op of
            UpdateUserScore userId scoreToAdd \<Rightarrow>
              profile_of (run op st) u =
                Some (if userId = u
                      then p \<lparr> p_totalScore := p_totalScore p + scoreToAdd,
                               p_gamesPlayed := p_gamesPlayed p + 1 \<rparr>
                      else p)
          | FinishQuiz userId finished now \<Rightarrow>
              profile_of (run op st) u = Some p
              \<or> (userId = u \<and> (\<exists>sid s.
                    kv_get st (active_session_key userId) = Some (VString sid)
                  \<and> kv_get st sid = Some (VSession s)
                  \<and> profile_of (run op st) u =
                      Some (p \<lparr> p_totalScore := p_totalScore p + s_score s,
                                p_gamesPlayed := p_gamesPlayed p + 1 \<rparr>)))
          | ResetAllRankings \<Rightarrow>
              (profile_of (run op st) u = Some p
               \<or> (\<exists>p'. profile_of (run op st) u = Some p'
                     \<and> p_totalScore p' = 0 \<and> p_gamesPlayed p' = 0))
              \<and> (fst (resetAllRankings st) = Inr () \<and> p_id p = u \<longrightarrow>
                   (\<exists>p'. profile_of (run op st) u = Some p' \<and> p_id p' = u
                      \<and> p_totalScore p' = 0 \<and> p_gamesPlayed p' = 0))
              \<and> (profiles_well_keyed st \<longrightarrow>
                   profile_of (run op st) u =
                     Some (p \<lparr> p_totalScore := 0, p_gamesPlayed := 0 \<rparr>))
          | _ \<Rightarrow> profile_of (run op st) u = Some p)
       \<and> (scores_nonneg st \<and> op \<noteq> ResetAllRankings
            \<and> (\<forall>userId scoreToAdd. op = UpdateUserScore userId scoreToAdd \<longrightarrow> 0 \<le> scoreToAdd)
          \<longrightarrow> (\<exists>p'. profile_of (run op st) u = Some p'
                 \<and> p_totalScore p \<le> p_totalScore p'
                 \<and> p_gamesPlayed p \<le> p_gamesPlayed p'))
       \<and> (scores_nonneg st \<longrightarrow> scores_nonneg (run op st))
       \<and> (profiles_well_keyed st \<longrightarrow> profiles_well_keyed (run op st))"
proof -
  from assms have g: "kv_get st (user_profile_key u) = Some (VProfile p)"
    by (simp add: profile_of_eq)
  have main: "(case op of
            UpdateUserScore userId scoreToAdd \<Rightarrow>
              profile_of (run op st) u =
                Some (if userId = u
                      then p \<lparr> p_totalScore := p_totalScore p + scoreToAdd,
                               p_gamesPlayed := p_gamesPlayed p + 1 \<rparr>
                      else p)
          | FinishQuiz userId finished now \<Rightarrow>
              profile_of (run op st) u = Some p
              \<or> (userId = u \<and> (\<exists>sid s.
                    kv_get st (active_session_key userId) = Some (VString sid)
                  \<and> kv_get st sid = Some (VSession s)
                  \<and> profile_of (run op st) u =
                      Some (p \<lparr> p_totalScore := p_totalScore p + s_score s,
                                p_gamesPlayed := p_gamesPlayed p + 1 \<rparr>)))
          | ResetAllRankings \<Rightarrow>
              (profile_of (run op st) u = Some p
               \<or> (\<exists>p'. profile_of (run op st) u = Some p'
                     \<and> p_totalScore p' = 0 \<and> p_gamesPlayed p' = 0))
              \<and> (fst (resetAllRankings st) = Inr () \<and> p_id p = u \<longrightarrow>
                   (\<exists>p'. profile_of (run op st) u = Some p' \<and> p_id p' = u
                      \<and> p_totalScore p' = 0 \<and> p_gamesPlayed p' = 0))
              \<and> (profiles_well_keyed st \<longrightarrow>
                   profile_of (run op st) u =
                     Some (p \<lparr> p_totalScore := 0, p_gamesPlayed := 0 \<rparr>))
          | _ \<Rightarrow> profile_of (run op st) u = Some p)
       \<and> (scores_nonneg st \<and> op \<noteq> ResetAllRankings
            \<and> (\<forall>userId scoreToAdd. op = UpdateUserScore userId scoreToAdd \<longrightarrow> 0 \<le> scoreToAdd)
          \<longrightarrow> (\<exists>p'. profile_of (run op st) u = Some p'
                 \<and> p_totalScore p \<le> p_totalScore p'
                 \<and> p_gamesPlayed p \<le> p_gamesPlayed p'))"
  proof (cases op)
    case (StartSession userId quizId team now started rnd)
    then show ?thesis using g by (simp add: profile_of_eq startSession_frame)
  next
    case (SubmitAnswer userId answer)
    then show ?thesis using g by (simp add: profile_of_eq submitAnswer_frame)
  next
    case (FinishQuiz userId finished now)
    from finishQuiz_profile [OF g, of userId finished now]
    have 1: "profile_of (run op st) u = Some p
              \<or> (userId = u \<and> (\<exists>sid s.
                    kv_get st (active_session_key userId) = Some (VString sid)
                  \<and> kv_get st sid = Some (VSession s)
                  \<and> profile_of (run op st) u =
                      Some (p \<lparr> p_totalScore := p_totalScore p + s_score s,
                                p_gamesPlayed := p_gamesPlayed p + 1 \<rparr>)))"
      using FinishQuiz by (simp add: profile_of_eq)
    have 2: "scores_nonneg st \<longrightarrow> (\<exists>p'. profile_of (run op st) u = Some p'
                 \<and> p_totalScore p \<le> p_totalScore p'
                 \<and> p_gamesPlayed p \<le> p_gamesPlayed p')"
    proof
      assume n: "scores_nonneg st"
      have "0 \<le> s_score s" if "kv_get st sid = Some (VSession s)" for sid s
        using scores_nonneg_get [OF n that] .
      with 1 show "\<exists>p'. profile_of (run op st) u = Some p'
                 \<and> p_totalScore p \<le> p_totalScore p' \<and> p_gamesPlayed p \<le> p_gamesPlayed p'"
        by auto
    qed
    from 1 2 FinishQuiz show ?thesis by simp
  next
    case (UpdateUserScore userId scoreToAdd)
    then show ?thesis using updateUserScore_profile [OF g, of userId scoreToAdd]
      by (simp add: profile_of_eq)
  next
    case (TrackFastestPlayer sessionData now)
    then show ?thesis using g by (simp add: profile_of_eq trackFastestPlayer_frame)
  next
    case ResetAllFastest
    then show ?thesis using g by (simp add: profile_of_eq kv_get_resetAllFastest)
  next
    case (GetGlobalRanking now written)
    then show ?thesis using g by (simp add: profile_of_eq getGlobalRanking_frame)
  next
    case InvalidateCache
    then show ?thesis using g by (simp add: profile_of_eq kv_get_invalidateCache)
  next
    case (GetUserPosition userId now written)
    then show ?thesis using g
      by (simp add: profile_of_eq getUserPosition_store getGlobalRanking_frame)
  next
    case (GetTopPlayers limit now written)
    then show ?thesis using g
      by (simp add: profile_of_eq getTopPlayers_store getGlobalRanking_frame)
  next
    case (GetRankingStats now written)
    then show ?thesis using g
      by (simp add: profile_of_eq getRankingStats_store getGlobalRanking_frame)
  next
    case ResetAllRankings
    have r1: "profile_of (snd (resetAllRankings st)) u = Some p
               \<or> (\<exists>p'. profile_of (snd (resetAllRankings st)) u = Some p'
                     \<and> p_totalScore p' = 0 \<and> p_gamesPlayed p' = 0)"
      using resetAllRankings_any(1) [OF g] by (auto simp add: profile_of_eq)
    have r2: "fst (resetAllRankings st) = Inr () \<and> p_id p = u \<longrightarrow>
                   (\<exists>p'. profile_of (snd (resetAllRankings st)) u = Some p' \<and> p_id p' = u
                      \<and> p_totalScore p' = 0 \<and> p_gamesPlayed p' = 0)"
    proof
      assume "fst (resetAllRankings st) = Inr () \<and> p_id p = u"
      then obtain q where "p_id q = u"
        "kv_get (snd (resetAllRankings st)) (user_profile_key u) =
              Some (VProfile (q \<lparr> p_totalScore := 0, p_gamesPlayed := 0 \<rparr>))"
        using resetAllRankings_any(2) [OF g] by blast
      then show "\<exists>p'. profile_of (snd (resetAllRankings st)) u = Some p' \<and> p_id p' = u
                      \<and> p_totalScore p' = 0 \<and> p_gamesPlayed p' = 0"
        by (intro exI [of _ "q \<lparr> p_totalScore := 0, p_gamesPlayed := 0 \<rparr>"])
           (simp add: profile_of_eq)
    qed
    have r3: "profiles_well_keyed st \<longrightarrow>
                   profile_of (snd (resetAllRankings st)) u =
                     Some (p \<lparr> p_totalScore := 0, p_gamesPlayed := 0 \<rparr>)"
      using resetAllRankings_profile [OF _ g] by (simp add: profile_of_eq)
    from r1 r2 r3 ResetAllRankings show ?thesis by simp
  qed
  have i1: "scores_nonneg st \<longrightarrow> scores_nonneg (run op st)"
    using run_keeps_scores_nonneg by blast
  have i2: "profiles_well_keyed st \<longrightarrow> profiles_well_keyed (run op st)"
    using run_keeps_profiles_well_keyed by blast
  show ?thesis
    by (rule conjI [OF conjunct1 [OF main] conjI [OF conjunct2 [OF main] conjI [OF i1 i2]]])
qed

theorem profile_totals_change_witness:
  "profile_of ex_store_answered ''u1'' = Some ex_profile
   \<and> scores_nonneg ex_store_answered
   \<and> (\<exists>p'. profile_of (run (FinishQuiz ''u1'' 9000 9001) ex_store_answered) ''u1'' = Some p'
          \<and> p_totalScore ex_profile \<le> p_totalScore p'
          \<and> p_gamesPlayed ex_profile \<le> p_gamesPlayed p')
   \<and> profiles_well_keyed ex_store
   \<and> profile_of (run ResetAllRankings ex_store) ''u1'' =
       Some (ex_profile \<lparr> p_totalScore := 0, p_gamesPlayed := 0 \<rparr>)
   \<and> profiles_well_keyed (run ResetAllRankings ex_store)
   \<and> \<not> profiles_well_keyed ex_store_miskeyed
   \<and> fst (resetAllRankings ex_store_miskeyed) = Inr ()
   \<and> profile_of ex_store_miskeyed ''x'' = Some ex_profile
   \<and> profile_of (run ResetAllRankings ex_store_miskeyed) ''x'' = Some ex_profile"
proof -
  have a: "profile_of ex_store_answered ''u1'' = Some ex_profile"
    by (simp add: profile_of_def ex_store_answered_def kv_get_def user_profile_key_def)
  have n: "scores_nonneg ex_store_answered"
    by (simp add: scores_nonneg_def ex_store_answered_def ex_session_def)
  have b: "profile_of ex_store ''u1'' = Some ex_profile"
    by (simp add: profile_of_def ex_store_def kv_get_def user_profile_key_def)
  have w: "profiles_well_keyed ex_store"
    by (simp add: profiles_well_keyed_def ex_store_def startsWith_def user_profile_key_def
        ex_profile_def)
  have m: "profile_of ex_store_miskeyed ''x'' = Some ex_profile"
    by (simp add: profile_of_def ex_store_miskeyed_def kv_get_def user_profile_key_def)
  have nw: "\<not> profiles_well_keyed ex_store_miskeyed"
    by (simp add: profiles_well_keyed_def ex_store_miskeyed_def startsWith_def
        user_profile_key_def ex_profile_def)
  have r: "resetAllRankings ex_store_miskeyed =
      (Inr (), [(''user_profile:x'', VProfile ex_profile),
                (''user_profile:u1'',
                   VProfile (ex_profile \<lparr> p_totalScore := 0, p_gamesPlayed := 0 \<rparr>))])"
    by (simp add: resetAllRankings_def ex_store_miskeyed_def kv_getByPrefix_def startsWith_def
        reset_profile_def kv_set_def user_profile_key_def ex_profile_def invalidateCache_def
        kv_del_def CACHE_KEY_def CACHE_TIMESTAMP_KEY_def)
  from profile_totals_change [OF a, of "FinishQuiz ''u1'' 9000 9001"] n
  have 1: "\<exists>p'. profile_of (run (FinishQuiz ''u1'' 9000 9001) ex_store_answered) ''u1'' = Some p'
          \<and> p_totalScore ex_profile \<le> p_totalScore p'
          \<and> p_gamesPlayed ex_profile \<le> p_gamesPlayed p'"
    by simp
  from profile_totals_change [OF b, of ResetAllRankings] w
  have 2: "profile_of (run ResetAllRankings ex_store) ''u1'' =
       Some (ex_profile \<lparr> p_totalScore := 0, p_gamesPlayed := 0 \<rparr>)"
    and 3: "profiles_well_keyed (run ResetAllRankings ex_store)"
    by simp_all
  have 4: "profile_of (run ResetAllRankings ex_store_miskeyed) ''x'' = Some ex_profile"
    by (simp add: r profile_of_def kv_get_def user_profile_key_def)
  from profile_totals_change [OF m, of ResetAllRankings] 4
  have 5: "fst (resetAllRankings ex_store_miskeyed) = Inr ()" by (simp add: r)
  from a n 1 w 2 3 nw 5 m 4 show ?thesis by simp
qed

end
